theory Spec2Isabelle
  imports Main
begin

section \<open>JSON values and their text form\<close>

text \<open>
  The values that \<^verbatim>\<open>request.get_json()\<close> hands to the handlers and that
  \<^verbatim>\<open>jsonify\<close> sends back. A Python \<^verbatim>\<open>dict\<close> is an association list in
  insertion order, \<^verbatim>\<open>None\<close> is \<open>JNull\<close>. Numbers are Python's unbounded
  integers; floating-point numbers are left out of the model. A character is a
  code point below 256.
\<close>

datatype json =
    JNull
  | JBool bool
  | JInt int
  | JStr string
  | JArr "json list"
  | JObj "(string \<times> json) list"

abbreviation quote :: char where
  "quote \<equiv> CHR 0x22"

abbreviation backslash :: char where
  "backslash \<equiv> CHR 0x5C"

subsection \<open>\<^verbatim>\<open>json.dumps\<close>\<close>

text \<open>
  \<^verbatim>\<open>json.dumps\<close> with its defaults: \<^verbatim>\<open>ensure_ascii=True\<close>, item separator
  \<^verbatim>\<open>', '\<close>, key separator \<^verbatim>\<open>': '\<close>. Integers print as \<^verbatim>\<open>str\<close> prints them.
\<close>

definition digit_char :: "nat \<Rightarrow> char" where
  "digit_char d = char_of (48 + d)"

fun digits :: "nat \<Rightarrow> string" where
  "digits n = (if n < 10 then [digit_char n] else digits (n div 10) @ [digit_char (n mod 10)])"

declare digits.simps [simp del]

definition str_int :: "int \<Rightarrow> string" where
  "str_int i = (if i < 0 then CHR ''-'' # digits (nat (- i)) else digits (nat i))"

definition hex_char :: "nat \<Rightarrow> char" where
  "hex_char d = (if d < 10 then char_of (48 + d) else char_of (87 + d))"

text \<open>
  The replacement that \<^verbatim>\<open>py_encode_basestring_ascii\<close> makes for one character:
  the short escapes of \<^verbatim>\<open>ESCAPE_DCT\<close>, the character itself between space and
  \<^verbatim>\<open>~\<close>, and \<^verbatim>\<open>\u00xx\<close> (lower-case hexadecimal) for the rest.
\<close>

definition escape_char :: "char \<Rightarrow> string" where
  "escape_char c =
     (if c = backslash then [backslash, backslash]
      else if c = quote then [backslash, quote]
      else if c = CHR 0x08 then [backslash, CHR ''b'']
      else if c = CHR 0x0C then [backslash, CHR ''f'']
      else if c = CHR 0x0A then [backslash, CHR ''n'']
      else if c = CHR 0x0D then [backslash, CHR ''r'']
      else if c = CHR 0x09 then [backslash, CHR ''t'']
      else if (32::nat) \<le> of_char c \<and> of_char c \<le> (126::nat) then [c]
      else [backslash, CHR ''u'', CHR ''0'', CHR ''0'',
            hex_char (of_char c div 16), hex_char (of_char c mod 16)])"

definition encode_basestring_ascii :: "string \<Rightarrow> string" where
  "encode_basestring_ascii s = quote # concat (map escape_char s) @ [quote]"

fun dumps :: "json \<Rightarrow> string"
  and dumps_list :: "json list \<Rightarrow> string"
  and dumps_dict :: "(string \<times> json) list \<Rightarrow> string"
where
  "dumps JNull = ''null''"
| "dumps (JBool b) = (if b then ''true'' else ''false'')"
| "dumps (JInt i) = str_int i"
| "dumps (JStr s) = encode_basestring_ascii s"
| "dumps (JArr xs) = CHR ''['' # dumps_list xs @ '']''"
| "dumps (JObj kvs) = CHR ''{'' # dumps_dict kvs @ ''}''"
| "dumps_list [] = []"
| "dumps_list [x] = dumps x"
| "dumps_list (x # y # ys) = dumps x @ '', '' @ dumps_list (y # ys)"
| "dumps_dict [] = []"
| "dumps_dict [(k, v)] = encode_basestring_ascii k @ '': '' @ dumps v"
| "dumps_dict ((k, v) # kv # kvs) =
     encode_basestring_ascii k @ '': '' @ dumps v @ '', '' @ dumps_dict (kv # kvs)"

subsection \<open>\<^verbatim>\<open>json.loads\<close>\<close>

text \<open>
  The decoder of the standard library, on the fragment this model can hold: a text
  whose value would contain a floating-point number (also \<^verbatim>\<open>NaN\<close> and the
  infinities) or a character above code point 255 gives \<open>None\<close> here, as does every
  text the decoder rejects. The recursion of the scanner is bounded by a counter that
  \<open>loads\<close> sets from the length of the text.
\<close>

definition is_ws :: "char \<Rightarrow> bool" where
  "is_ws c = (c = CHR '' '' \<or> c = CHR 0x09 \<or> c = CHR 0x0A \<or> c = CHR 0x0D)"

definition skip_ws :: "string \<Rightarrow> string" where
  "skip_ws s = dropWhile is_ws s"

definition is_digit :: "char \<Rightarrow> bool" where
  "is_digit c = ((48::nat) \<le> of_char c \<and> of_char c \<le> (57::nat))"

definition digit_val :: "char \<Rightarrow> nat" where
  "digit_val c = of_char c - 48"

definition hex_val :: "char \<Rightarrow> nat option" where
  "hex_val c =
     (let n = of_char c :: nat in
      if 48 \<le> n \<and> n \<le> 57 then Some (n - 48)
      else if 97 \<le> n \<and> n \<le> 102 then Some (n - 87)
      else if 65 \<le> n \<and> n \<le> 70 then Some (n - 55)
      else None)"

definition decode_uXXXX :: "char \<Rightarrow> char \<Rightarrow> char \<Rightarrow> char \<Rightarrow> nat option" where
  "decode_uXXXX a b c d =
     (case (hex_val a, hex_val b, hex_val c, hex_val d) of
        (Some x, Some y, Some z, Some w) \<Rightarrow> Some (((x * 16 + y) * 16 + z) * 16 + w)
      | _ \<Rightarrow> None)"

text \<open>The table \<^verbatim>\<open>BACKSLASH\<close> of the one-letter escapes.\<close>

definition backslash_table :: "char \<Rightarrow> char option" where
  "backslash_table e =
     (if e = quote then Some quote
      else if e = backslash then Some backslash
      else if e = CHR ''/'' then Some CHR ''/''
      else if e = CHR ''b'' then Some (CHR 0x08)
      else if e = CHR ''f'' then Some (CHR 0x0C)
      else if e = CHR ''n'' then Some (CHR 0x0A)
      else if e = CHR ''r'' then Some (CHR 0x0D)
      else if e = CHR ''t'' then Some (CHR 0x09)
      else None)"

definition prepend :: "char \<Rightarrow> (string \<times> string) option \<Rightarrow> (string \<times> string) option" where
  "prepend c r = map_option (\<lambda>(t, rest). (c # t, rest)) r"

text \<open>
  \<^verbatim>\<open>scanstring\<close> in strict mode, started after the opening quote: the decoded string
  and the text after the closing quote.
\<close>

fun scanstring :: "string \<Rightarrow> (string \<times> string) option" where
  "scanstring [] = None"
| "scanstring (c # cs) =
     (if c = quote then Some ([], cs)
      else if c = backslash then
        (case cs of
           [] \<Rightarrow> None
         | e # r \<Rightarrow>
             if e = CHR ''u'' then
               (case r of
                  h1 # h2 # h3 # h4 # r' \<Rightarrow>
                    (case decode_uXXXX h1 h2 h3 h4 of
                       None \<Rightarrow> None
                     | Some n \<Rightarrow> if n < 256 then prepend (char_of n) (scanstring r') else None)
                | _ \<Rightarrow> None)
             else
               (case backslash_table e of
                  None \<Rightarrow> None
                | Some ch \<Rightarrow> prepend ch (scanstring r)))
      else if (of_char c :: nat) < 32 then None
      else prepend c (scanstring cs))"

text \<open>
  \<^verbatim>\<open>NUMBER_RE\<close>: the integer part \<^verbatim>\<open>-?(0|[1-9][0-9]*)\<close>, then whether a fraction
  \<^verbatim>\<open>\.[0-9]+\<close> or an exponent \<^verbatim>\<open>[eE][-+]?[0-9]+\<close> follows.
\<close>

definition digits_val :: "string \<Rightarrow> nat" where
  "digits_val ds = foldl (\<lambda>a c. 10 * a + digit_val c) 0 ds"

definition match_nat :: "string \<Rightarrow> (nat \<times> string) option" where
  "match_nat s =
     (case s of
        [] \<Rightarrow> None
      | c # r \<Rightarrow>
          if c = CHR ''0'' then Some (0, r)
          else if is_digit c then Some (digits_val (takeWhile is_digit s), dropWhile is_digit s)
          else None)"

definition match_int :: "string \<Rightarrow> (int \<times> string) option" where
  "match_int s =
     (case s of
        [] \<Rightarrow> None
      | c # r \<Rightarrow>
          if c = CHR ''-'' then map_option (\<lambda>(n, r'). (- int n, r')) (match_nat r)
          else map_option (\<lambda>(n, r'). (int n, r')) (match_nat s))"

definition starts_digit :: "string \<Rightarrow> bool" where
  "starts_digit s = (case s of [] \<Rightarrow> False | c # _ \<Rightarrow> is_digit c)"

definition is_float_tail :: "string \<Rightarrow> bool" where
  "is_float_tail s =
     (case s of
        [] \<Rightarrow> False
      | c # r \<Rightarrow>
          if c = CHR ''.'' then starts_digit r
          else if c = CHR ''e'' \<or> c = CHR ''E'' then
            (case r of
               [] \<Rightarrow> False
             | g # r' \<Rightarrow> if g = CHR ''-'' \<or> g = CHR ''+'' then starts_digit r' else is_digit g)
          else False)"

text \<open>\<^verbatim>\<open>dict(pairs)\<close>: a repeated key keeps its first position and takes the last value.\<close>

fun dict_set :: "(string \<times> json) list \<Rightarrow> string \<Rightarrow> json \<Rightarrow> (string \<times> json) list" where
  "dict_set [] k v = [(k, v)]"
| "dict_set ((k', v') # d) k v = (if k' = k then (k, v) # d else (k', v') # dict_set d k v)"

definition py_dict :: "(string \<times> json) list \<Rightarrow> (string \<times> json) list" where
  "py_dict pairs = foldl (\<lambda>d (k, v). dict_set d k v) [] pairs"

text \<open>
  \<open>scan_once\<close> reads one value; \<open>JSONArray\<close> and \<open>JSONObject\<close> read the items of an
  array and of an object, started at the first item (after the opening bracket, and for
  an object after the quote that opens the first key).
\<close>

fun scan_once :: "nat \<Rightarrow> string \<Rightarrow> (json \<times> string) option"
  and JSONArray :: "nat \<Rightarrow> string \<Rightarrow> (json list \<times> string) option"
  and JSONObject :: "nat \<Rightarrow> string \<Rightarrow> ((string \<times> json) list \<times> string) option"
where
  "scan_once 0 s = None"
| "scan_once (Suc n) s =
     (case s of
        [] \<Rightarrow> None
      | c # cs \<Rightarrow>
          if c = quote then
            (case scanstring cs of None \<Rightarrow> None | Some (t, r) \<Rightarrow> Some (JStr t, r))
          else if c = CHR ''{'' then
            (case skip_ws cs of
               [] \<Rightarrow> None
             | d # r \<Rightarrow>
                 if d = CHR ''}'' then Some (JObj [], r)
                 else if d = quote then
                   (case JSONObject n r of
                      None \<Rightarrow> None
                    | Some (pairs, r') \<Rightarrow> Some (JObj (py_dict pairs), r'))
                 else None)
          else if c = CHR ''['' then
            (case skip_ws cs of
               [] \<Rightarrow> None
             | d # r \<Rightarrow>
                 if d = CHR '']'' then Some (JArr [], r)
                 else
                   (case JSONArray n (d # r) of
                      None \<Rightarrow> None
                    | Some (vs, r') \<Rightarrow> Some (JArr vs, r')))
          else if take 4 s = ''null'' then Some (JNull, drop 4 s)
          else if take 4 s = ''true'' then Some (JBool True, drop 4 s)
          else if take 5 s = ''false'' then Some (JBool False, drop 5 s)
          else
            (case match_int s of
               None \<Rightarrow> None
             | Some (i, r) \<Rightarrow> if is_float_tail r then None else Some (JInt i, r)))"
| "JSONArray 0 s = None"
| "JSONArray (Suc n) s =
     (case scan_once n s of
        None \<Rightarrow> None
      | Some (v, r) \<Rightarrow>
          (case skip_ws r of
             [] \<Rightarrow> None
           | d # r' \<Rightarrow>
               if d = CHR '']'' then Some ([v], r')
               else if d = CHR '','' then
                 (case JSONArray n (skip_ws r') of
                    None \<Rightarrow> None
                  | Some (vs, r'') \<Rightarrow> Some (v # vs, r''))
               else None))"
| "JSONObject 0 s = None"
| "JSONObject (Suc n) s =
     (case scanstring s of
        None \<Rightarrow> None
      | Some (k, r) \<Rightarrow>
          (case skip_ws r of
             [] \<Rightarrow> None
           | c # r1 \<Rightarrow>
               if c \<noteq> CHR '':'' then None
               else
                 (case scan_once n (skip_ws r1) of
                    None \<Rightarrow> None
                  | Some (v, r2) \<Rightarrow>
                      (case skip_ws r2 of
                         [] \<Rightarrow> None
                       | d # r3 \<Rightarrow>
                           if d = CHR ''}'' then Some ([(k, v)], r3)
                           else if d = CHR '','' then
                             (case skip_ws r3 of
                                [] \<Rightarrow> None
                              | q # r4 \<Rightarrow>
                                  if q \<noteq> quote then None
                                  else
                                    (case JSONObject n r4 of
                                       None \<Rightarrow> None
                                     | Some (pairs, r5) \<Rightarrow> Some ((k, v) # pairs, r5)))
                           else None))))"

definition loads :: "string \<Rightarrow> json option" where
  "loads s =
     (case scan_once (2 * length s + 2) (skip_ws s) of
        None \<Rightarrow> None
      | Some (v, r) \<Rightarrow> if skip_ws r = [] then Some v else None)"

text \<open>
  What \<open>loads\<close> gives back for the text of a value: the value itself, with the
  repeated keys of an object merged as \<^verbatim>\<open>dict\<close> merges them.
\<close>

fun decoded :: "json \<Rightarrow> json"
  and decoded_list :: "json list \<Rightarrow> json list"
  and decoded_dict :: "(string \<times> json) list \<Rightarrow> (string \<times> json) list"
where
  "decoded JNull = JNull"
| "decoded (JBool b) = JBool b"
| "decoded (JInt i) = JInt i"
| "decoded (JStr s) = JStr s"
| "decoded (JArr xs) = JArr (decoded_list xs)"
| "decoded (JObj kvs) = JObj (py_dict (decoded_dict kvs))"
| "decoded_list [] = []"
| "decoded_list (x # xs) = decoded x # decoded_list xs"
| "decoded_dict [] = []"
| "decoded_dict ((k, v) # kvs) = (k, decoded v) # decoded_dict kvs"

text \<open>Values as Python builds them: no object has a repeated key.\<close>

fun distinct_keys :: "json \<Rightarrow> bool"
  and distinct_keys_list :: "json list \<Rightarrow> bool"
  and distinct_keys_dict :: "(string \<times> json) list \<Rightarrow> bool"
where
  "distinct_keys JNull = True"
| "distinct_keys (JBool b) = True"
| "distinct_keys (JInt i) = True"
| "distinct_keys (JStr s) = True"
| "distinct_keys (JArr xs) = distinct_keys_list xs"
| "distinct_keys (JObj kvs) = (distinct (map fst kvs) \<and> distinct_keys_dict kvs)"
| "distinct_keys_list [] = True"
| "distinct_keys_list (x # xs) = (distinct_keys x \<and> distinct_keys_list xs)"
| "distinct_keys_dict [] = True"
| "distinct_keys_dict ((k, v) # kvs) = (distinct_keys v \<and> distinct_keys_dict kvs)"

text \<open>The text that may follow a value inside an array or an object, and the characters a value may start with.\<close>

definition delim :: "string \<Rightarrow> bool" where
  "delim r = (case r of [] \<Rightarrow> True | c # _ \<Rightarrow> c = CHR '','' \<or> c = CHR '']'' \<or> c = CHR ''}'')"

definition value_start :: "char \<Rightarrow> bool" where
  "value_start c = (\<not> is_ws c \<and> c \<noteq> CHR '']'' \<and> c \<noteq> CHR ''}'' \<and> c \<noteq> CHR '','')"

section \<open>The Drink table\<close>

text \<open>
  Modelled from the spec: the \<^verbatim>\<open>Drink\<close> entity, its queries and its
  \<^verbatim>\<open>insert\<close>, \<^verbatim>\<open>update\<close>, \<^verbatim>\<open>delete\<close>, \<^verbatim>\<open>short\<close> and \<^verbatim>\<open>long\<close>
  methods, which \<^verbatim>\<open>api.py\<close> imports from \<^verbatim>\<open>database/models.py\<close>. A drink has a
  system-generated unique id, a title and a recipe kept as a serialized text blob that
  is parsed again on every read. The title column holds what the handler passes to it,
  which is \<^verbatim>\<open>None\<close> when the request has no title. The table keeps its rows in
  storage order and hands out ids from a counter.
\<close>

record drink =
  drink_id :: nat
  title :: "string option"
  recipe :: string

record store =
  rows :: "drink list"
  next_id :: nat

text \<open>
  Modelled from the spec: the \<^verbatim>\<open>AuthError\<close> of \<^verbatim>\<open>auth/auth.py\<close>, which is not among
  the sources. It carries the code and the description that the error handler reads,
  and the status the authorizer gives the failure (unauthorized, or forbidden for the two
  permission failures).
\<close>

record auth_error =
  code :: string
  description :: string
  status_code :: nat

text \<open>
  What escapes a view function instead of a response: \<^verbatim>\<open>abort(code)\<close>, an
  \<^verbatim>\<open>AuthError\<close>, or any other exception, which is a server-side fault.
\<close>

datatype exn =
    HTTPException nat
  | AuthError auth_error
  | ServerFault

record response =
  status :: nat
  data :: json

text \<open>Modelled from the spec: \<^verbatim>\<open>Drink.query.all()\<close>, every row in storage order.\<close>

definition query_all :: "store \<Rightarrow> drink list" where
  "query_all s = rows s"

text \<open>
  Modelled from the spec: \<^verbatim>\<open>Drink.query.filter_by(title=t).first()\<close>, the first row with
  that title, if any.
\<close>

definition filter_by_title_first :: "store \<Rightarrow> string option \<Rightarrow> drink option" where
  "filter_by_title_first s t = find (\<lambda>d. title d = t) (rows s)"

text \<open>
  Modelled from the spec: \<^verbatim>\<open>Drink.query.filter(Drink.id == id).one_or_none()\<close>. No row
  is \<^verbatim>\<open>None\<close>, more than one row raises.
\<close>

definition filter_id_one_or_none :: "store \<Rightarrow> nat \<Rightarrow> exn + drink option" where
  "filter_id_one_or_none s i =
     (case filter (\<lambda>d. drink_id d = i) (rows s) of
        [] \<Rightarrow> Inr None
      | [d] \<Rightarrow> Inr (Some d)
      | _ \<Rightarrow> Inl ServerFault)"

text \<open>
  Modelled from the spec: \<^verbatim>\<open>Drink(title=t, recipe=r)\<close> followed by \<^verbatim>\<open>drink.insert()\<close>.
  The new row takes the counter as its id and is appended; the result is the row and the
  table.
\<close>

definition insert_drink :: "store \<Rightarrow> string option \<Rightarrow> string \<Rightarrow> drink \<times> store" where
  "insert_drink s t r =
     (let d = \<lparr>drink_id = next_id s, title = t, recipe = r\<rparr>
      in (d, s\<lparr>rows := rows s @ [d], next_id := Suc (next_id s)\<rparr>))"

text \<open>
  Modelled from the spec: \<^verbatim>\<open>drink.update()\<close>. The row with the drink's id takes the
  drink's fields.
\<close>

definition update_drink :: "store \<Rightarrow> drink \<Rightarrow> store" where
  "update_drink s d = s\<lparr>rows := map (\<lambda>x. if drink_id x = drink_id d then d else x) (rows s)\<rparr>"

text \<open>Modelled from the spec: \<^verbatim>\<open>drink.delete()\<close>. The row with the drink's id is removed.\<close>

definition delete_drink :: "store \<Rightarrow> drink \<Rightarrow> store" where
  "delete_drink s d = s\<lparr>rows := filter (\<lambda>x. drink_id x \<noteq> drink_id d) (rows s)\<rparr>"

definition json_of_title :: "string option \<Rightarrow> json" where
  "json_of_title t = (case t of None \<Rightarrow> JNull | Some x \<Rightarrow> JStr x)"

text \<open>
  Modelled from the spec: \<^verbatim>\<open>drink.long()\<close>, the detailed view \<^verbatim>\<open>{id, title, recipe}\<close>
  with the whole parsed recipe. A blob that does not parse is a server-side fault.
\<close>

definition long :: "drink \<Rightarrow> exn + json" where
  "long d =
     (case loads (recipe d) of
        None \<Rightarrow> Inl ServerFault
      | Some r \<Rightarrow>
          Inr (JObj [(''id'', JInt (int (drink_id d))),
                     (''title'', json_of_title (title d)),
                     (''recipe'', r)]))"

text \<open>
  Modelled from the spec: \<^verbatim>\<open>drink.short()\<close>, the summary view
  \<^verbatim>\<open>{id, title, recipe: [{color, parts} ...]}\<close>, which keeps of every ingredient entry
  only its color and its parts. The spec describes it for a recipe that is a sequence of
  ingredient entries; a blob that does not parse to one is a server-side fault.
\<close>

definition short_entry :: "json \<Rightarrow> json option" where
  "short_entry r =
     (case r of
        JObj kvs \<Rightarrow>
          (case map_of kvs ''color'' of
             None \<Rightarrow> None
           | Some c \<Rightarrow>
               (case map_of kvs ''parts'' of
                  None \<Rightarrow> None
                | Some p \<Rightarrow> Some (JObj [(''color'', c), (''parts'', p)])))
      | _ \<Rightarrow> None)"

fun short_recipe :: "json list \<Rightarrow> json list option" where
  "short_recipe [] = Some []"
| "short_recipe (r # rs) =
     (case short_entry r of
        None \<Rightarrow> None
      | Some e \<Rightarrow> (case short_recipe rs of None \<Rightarrow> None | Some es \<Rightarrow> Some (e # es)))"

definition short :: "drink \<Rightarrow> exn + json" where
  "short d =
     (case loads (recipe d) of
        Some (JArr rs) \<Rightarrow>
          (case short_recipe rs of
             None \<Rightarrow> Inl ServerFault
           | Some es \<Rightarrow>
               Inr (JObj [(''id'', JInt (int (drink_id d))),
                          (''title'', json_of_title (title d)),
                          (''recipe'', JArr es)]))
      | _ \<Rightarrow> Inl ServerFault)"

section \<open>The routes of \<^verbatim>\<open>api.py\<close>\<close>

text \<open>
  The body of a POST or PATCH request as \<^verbatim>\<open>request.get_json()\<close> returns it: an object
  with a string \<^verbatim>\<open>title\<close> and a \<^verbatim>\<open>recipe\<close>; \<^verbatim>\<open>body.get\<close> gives \<^verbatim>\<open>None\<close> for
  a key that is absent.
\<close>

record json_body =
  get_title :: "string option"
  get_recipe :: "json option"

text \<open>The Python value of \<^verbatim>\<open>body.get('recipe')\<close>: \<^verbatim>\<open>None\<close> for an absent key.\<close>

definition py_value :: "json option \<Rightarrow> json" where
  "py_value v = (case v of None \<Rightarrow> JNull | Some x \<Rightarrow> x)"

definition jsonify :: "(string \<times> json) list \<Rightarrow> response" where
  "jsonify d = \<lparr>status = 200, data = JObj d\<rparr>"

definition with_status :: "response \<Rightarrow> nat \<Rightarrow> response" where
  "with_status r c = r\<lparr>status := c\<rparr>"

text \<open>The loop of \<^verbatim>\<open>get_drinks\<close>, which appends the summary view of each drink.\<close>

fun short_loop :: "drink list \<Rightarrow> json list \<Rightarrow> exn + json list" where
  "short_loop [] drink_list = Inr drink_list"
| "short_loop (d # ds) drink_list =
     (case short d of
        Inl e \<Rightarrow> Inl e
      | Inr v \<Rightarrow> short_loop ds (drink_list @ [v]))"

definition get_drinks :: "store \<Rightarrow> exn + response" where
  "get_drinks s =
     (case short_loop (query_all s) [] of
        Inl e \<Rightarrow> Inl e
      | Inr drink_list \<Rightarrow>
          Inr (jsonify [(''success'', JBool True), (''drinks'', JArr drink_list)]))"

fun long_loop :: "drink list \<Rightarrow> json list \<Rightarrow> exn + json list" where
  "long_loop [] drink_list = Inr drink_list"
| "long_loop (d # ds) drink_list =
     (case long d of
        Inl e \<Rightarrow> Inl e
      | Inr v \<Rightarrow> long_loop ds (drink_list @ [v]))"

definition get_drinks_detail :: "json \<Rightarrow> store \<Rightarrow> exn + response" where
  "get_drinks_detail payload s =
     (case long_loop (query_all s) [] of
        Inl e \<Rightarrow> Inl e
      | Inr drink_list \<Rightarrow>
          Inr (jsonify [(''success'', JBool True), (''drinks'', JArr drink_list)]))"

definition create_drinks :: "json \<Rightarrow> json_body \<Rightarrow> store \<Rightarrow> store \<times> (exn + response)" where
  "create_drinks payload body s =
     (let new_title = get_title body;
          new_recipe = dumps (py_value (get_recipe body))
      in if new_title = Some [] \<or> new_recipe = [] then (s, Inl (HTTPException 422))
         else if filter_by_title_first s new_title \<noteq> None then (s, Inl (HTTPException 400))
         else
           (let (d, s') = insert_drink s new_title new_recipe
            in (case long d of
                  Inl e \<Rightarrow> (s', Inl e)
                | Inr v \<Rightarrow>
                    (s', Inr (jsonify [(''success'', JBool True), (''drinks'', JArr [v])])))))"

definition patch_drinks :: "json \<Rightarrow> nat \<Rightarrow> json_body \<Rightarrow> store \<Rightarrow> store \<times> (exn + response)" where
  "patch_drinks payload i body s =
     (case filter_id_one_or_none s i of
        Inl e \<Rightarrow> (s, Inl e)
      | Inr None \<Rightarrow> (s, Inl (HTTPException 404))
      | Inr (Some d) \<Rightarrow>
          (let new_title = get_title body;
               new_recipe = dumps (py_value (get_recipe body));
               d1 = (if new_title \<noteq> Some [] then d\<lparr>title := new_title\<rparr> else d);
               d2 = (if new_recipe \<noteq> [] then d1\<lparr>recipe := new_recipe\<rparr> else d1);
               s' = update_drink s d2
           in (case long d2 of
                 Inl e \<Rightarrow> (s', Inl e)
               | Inr v \<Rightarrow>
                   (s', Inr (jsonify [(''success'', JBool True), (''drinks'', JArr [v])])))))"

definition delete_drinks :: "json \<Rightarrow> nat \<Rightarrow> store \<Rightarrow> store \<times> (exn + response)" where
  "delete_drinks payload i s =
     (case filter_id_one_or_none s i of
        Inl e \<Rightarrow> (s, Inl e)
      | Inr None \<Rightarrow> (s, Inl (HTTPException 404))
      | Inr (Some d) \<Rightarrow>
          (delete_drink s d,
           Inr (jsonify [(''success'', JBool True), (''deleted'', JInt (int i))])))"

subsection \<open>Error handlers\<close>

definition unprocessable :: response where
  "unprocessable =
     with_status (jsonify [(''success'', JBool False), (''error'', JInt 422),
                           (''message'', JStr ''unprocessable'')]) 422"

definition resource_not_found :: response where
  "resource_not_found =
     with_status (jsonify [(''success'', JBool False), (''error'', JInt 404),
                           (''message'', JStr ''resource not found'')]) 404"

text \<open>The handler registered for 400, which the source also names \<^verbatim>\<open>resource_not_found\<close>.\<close>

definition resource_not_found_400 :: response where
  "resource_not_found_400 =
     with_status (jsonify [(''success'', JBool False), (''error'', JInt 400),
                           (''message'', JStr ''bad request'')]) 400"

text \<open>The handler for \<^verbatim>\<open>AuthError\<close>: the lines it prints, and its response.\<close>

definition authorization_errors :: "auth_error \<Rightarrow> string list \<times> response" where
  "authorization_errors error =
     ([code error],
      with_status (jsonify [(''success'', JBool False), (''error'', JInt 401),
                            (''message'', JStr (description error))]) 401)"

text \<open>
  The handlers that \<^verbatim>\<open>app.errorhandler\<close> registers; \<open>None\<close> where the source registers
  nothing, so that the exception leaves the application unhandled.
\<close>

definition errorhandler :: "exn \<Rightarrow> (string list \<times> response) option" where
  "errorhandler e =
     (case e of
        HTTPException c \<Rightarrow>
          (if c = 422 then Some ([], unprocessable)
           else if c = 404 then Some ([], resource_not_found)
           else if c = 400 then Some ([], resource_not_found_400)
           else None)
      | AuthError error \<Rightarrow> Some (authorization_errors error)
      | ServerFault \<Rightarrow> None)"

subsection \<open>Dispatch\<close>

text \<open>
  The decorator \<^verbatim>\<open>requires_auth(permission)\<close> comes from \<^verbatim>\<open>auth/auth.py\<close>, which is
  not among the sources. It is taken as a parameter: the outcome of the token
  authorizer on the request for a required permission, either the \<^verbatim>\<open>AuthError\<close> it
  raises or the decoded payload it passes to the view function.
\<close>

type_synonym authorizer = "string \<Rightarrow> auth_error + json"

definition requires_auth ::
  "string \<Rightarrow> authorizer \<Rightarrow> store \<Rightarrow> (json \<Rightarrow> store \<times> (exn + response)) \<Rightarrow> store \<times> (exn + response)"
where
  "requires_auth permission authz s f =
     (case authz permission of
        Inl error \<Rightarrow> (s, Inl (AuthError error))
      | Inr payload \<Rightarrow> f payload)"

datatype request =
    GET_drinks
  | GET_drinks_detail
  | POST_drinks json_body
  | PATCH_drinks nat json_body
  | DELETE_drinks nat

definition dispatch_request :: "authorizer \<Rightarrow> store \<Rightarrow> request \<Rightarrow> store \<times> (exn + response)" where
  "dispatch_request authz s req =
     (case req of
        GET_drinks \<Rightarrow> (s, get_drinks s)
      | GET_drinks_detail \<Rightarrow>
          requires_auth ''get:drinks-detail'' authz s (\<lambda>payload. (s, get_drinks_detail payload s))
      | POST_drinks body \<Rightarrow>
          requires_auth ''post:drinks'' authz s (\<lambda>payload. create_drinks payload body s)
      | PATCH_drinks i body \<Rightarrow>
          requires_auth ''patch:drinks'' authz s (\<lambda>payload. patch_drinks payload i body s)
      | DELETE_drinks i \<Rightarrow>
          requires_auth ''delete:drinks'' authz s (\<lambda>payload. delete_drinks payload i s))"

text \<open>
  What the application does with the outcome of a view function: a raised exception
  goes to its registered handler. The result is the table, the lines printed and the
  response of the view function or of the handler, or the exception that no handler
  took. Such an exception still ends in a response, which is not one of this
  application: \<open>wsgi_app\<close> below answers it with the error page of the framework.
\<close>

definition handle_user_exception ::
  "store \<times> (exn + response) \<Rightarrow> store \<times> string list \<times> (exn + response)"
where
  "handle_user_exception out =
     (case out of
        (s, Inr r) \<Rightarrow> (s, [], Inr r)
      | (s, Inl e) \<Rightarrow>
          (case errorhandler e of
             None \<Rightarrow> (s, [], Inl e)
           | Some (printed, r) \<Rightarrow> (s, printed, Inr r)))"

definition full_dispatch_request ::
  "authorizer \<Rightarrow> store \<Rightarrow> request \<Rightarrow> store \<times> string list \<times> (exn + response)"
where
  "full_dispatch_request authz s req = handle_user_exception (dispatch_request authz s req)"




section \<open>Properties of the table\<close>

text \<open>
  The invariant of the table: ids are unique and below the counter, and no title is the
  empty string. Every route keeps it.
\<close>

definition store_inv :: "store \<Rightarrow> bool" where
  "store_inv s =
     (distinct (map drink_id (rows s)) \<and>
      (\<forall>d\<in>set (rows s). drink_id d < next_id s \<and> title d \<noteq> Some []))"

text \<open>
  The tables that a sequence of requests goes through, each request with the outcome of
  the authorizer on it: the table before the first request, then the table after each.
\<close>

fun table_history :: "store \<Rightarrow> (authorizer \<times> request) list \<Rightarrow> store list" where
  "table_history s [] = [s]"
| "table_history s ((authz, req) # rest) =
     s # table_history (fst (full_dispatch_request authz s req)) rest"

text \<open>
  A recipe blob of the shape the data model describes: the text of a sequence of
  ingredient entries, each an object with a color and a parts quantity.
\<close>

definition is_ingredient :: "json \<Rightarrow> bool" where
  "is_ingredient r =
     (case r of
        JObj kvs \<Rightarrow> map_of kvs ''color'' \<noteq> None \<and> map_of kvs ''parts'' \<noteq> None
      | _ \<Rightarrow> False)"

definition recipe_ok :: "string \<Rightarrow> bool" where
  "recipe_ok blob =
     (case loads blob of
        Some (JArr rs) \<Rightarrow> list_all is_ingredient rs
      | _ \<Rightarrow> False)"

section \<open>The decoder reads back what the encoder writes\<close>


lemma digit_char_is_digit: "d < 10 \<Longrightarrow> is_digit (digit_char d)"
  by (simp add: is_digit_def digit_char_def)

lemma digit_val_digit_char: "d < 10 \<Longrightarrow> digit_val (digit_char d) = d"
  by (simp add: digit_val_def digit_char_def)

lemma digits_all_digit: "\<forall>c\<in>set (digits n). is_digit c"
proof (induction n rule: digits.induct)
  case (1 n)
  show ?case
  proof (cases "n < 10")
    case True
    then show ?thesis by (subst digits.simps) (simp add: digit_char_is_digit)
  next
    case False
    with 1 show ?thesis by (subst digits.simps) (simp add: digit_char_is_digit)
  qed
qed

lemma digits_nonempty: "digits n \<noteq> []"
  by (subst digits.simps) simp

lemma digits_val_snoc: "digits_val (ds @ [c]) = 10 * digits_val ds + digit_val c"
  by (simp add: digits_val_def)

lemma digits_val_digits: "digits_val (digits n) = n"
proof (induction n rule: digits.induct)
  case (1 n)
  show ?case
  proof (cases "n < 10")
    case True
    then show ?thesis by (subst digits.simps) (simp add: digits_val_def digit_val_digit_char)
  next
    case False
    with 1 show ?thesis
      by (subst digits.simps) (simp add: digits_val_snoc digit_val_digit_char)
  qed
qed

lemma hd_digits_zero: "hd (digits n) = CHR ''0'' \<longleftrightarrow> n = 0"
proof (induction n rule: digits.induct)
  case (1 n)
  show ?case
  proof (cases "n < 10")
    case True
    have "digit_char n = CHR ''0'' \<longleftrightarrow> n = 0"
    proof -
      have "digit_char n = CHR ''0'' \<longleftrightarrow> (of_char (digit_char n) :: nat) = of_char CHR ''0''"
        by (simp only: of_char_eq_iff)
      also have "\<dots> \<longleftrightarrow> n = 0" using True by (simp add: digit_char_def)
      finally show ?thesis .
    qed
    with True show ?thesis by (subst digits.simps) simp
  next
    case False
    then have "n div 10 \<noteq> 0" by simp
    with 1 False show ?thesis
      by (subst digits.simps) (simp add: digits_nonempty)
  qed
qed


lemma delim_not_digit: "delim r \<Longrightarrow> \<not> starts_digit r"
  by (auto simp: delim_def starts_digit_def is_digit_def split: list.splits)

lemma delim_not_float: "delim r \<Longrightarrow> \<not> is_float_tail r"
  by (auto simp: delim_def is_float_tail_def split: list.splits)

lemma delim_skip_ws: "delim r \<Longrightarrow> skip_ws r = r"
  by (auto simp: delim_def skip_ws_def is_ws_def split: list.splits)

lemma takeWhile_digits: "\<not> starts_digit r \<Longrightarrow> takeWhile is_digit (digits n @ r) = digits n"
  using digits_all_digit [of n]
  by (cases r) (auto simp: takeWhile_append2 starts_digit_def)

lemma dropWhile_digits: "\<not> starts_digit r \<Longrightarrow> dropWhile is_digit (digits n @ r) = r"
  using digits_all_digit [of n]
  by (cases r) (auto simp: dropWhile_append2 starts_digit_def)

lemma digits_zero: "digits 0 = ''0''"
  by (subst digits.simps) (simp add: digit_char_def char_of_eq_iff)

lemma match_nat_digits:
  assumes "\<not> starts_digit r"
  shows "match_nat (digits n @ r) = Some (n, r)"
proof (cases "n = 0")
  case True
  then show ?thesis by (simp add: digits_zero match_nat_def)
next
  case False
  obtain c cs where cs: "digits n = c # cs"
    using digits_nonempty [of n] by (cases "digits n") auto
  have "c \<noteq> CHR ''0''" using hd_digits_zero [of n] False cs by simp
  moreover have "is_digit c" using digits_all_digit [of n] cs by simp
  moreover have "takeWhile is_digit (c # cs @ r) = c # cs" "dropWhile is_digit (c # cs @ r) = r"
    using takeWhile_digits [OF assms, of n] dropWhile_digits [OF assms, of n] cs by simp_all
  ultimately show ?thesis
    using digits_val_digits [of n] cs by (simp add: match_nat_def)
qed

lemma digits_not_minus: "hd (digits n) \<noteq> CHR ''-''"
  using digits_all_digit [of n] digits_nonempty [of n]
  by (cases "digits n") (auto simp: is_digit_def)

lemma match_int_str_int:
  assumes "\<not> starts_digit r"
  shows "match_int (str_int i @ r) = Some (i, r)"
proof (cases "i < 0")
  case True
  then show ?thesis
    by (simp add: str_int_def match_int_def match_nat_digits [OF assms])
next
  case False
  obtain c cs where cs: "digits (nat i) = c # cs"
    using digits_nonempty [of "nat i"] by (cases "digits (nat i)") auto
  have "c \<noteq> CHR ''-''" using digits_not_minus [of "nat i"] cs by simp
  then show ?thesis
    using False match_nat_digits [OF assms, of "nat i"] cs
    by (simp add: str_int_def match_int_def)
qed

lemma str_int_head:
  "\<exists>c cs. str_int i = c # cs \<and> (c = CHR ''-'' \<or> is_digit c)"
proof (cases "i < 0")
  case True
  then show ?thesis by (simp add: str_int_def)
next
  case False
  obtain c cs where cs: "digits (nat i) = c # cs"
    using digits_nonempty [of "nat i"] by (cases "digits (nat i)") auto
  then have "is_digit c" using digits_all_digit [of "nat i"] by simp
  with cs False show ?thesis by (simp add: str_int_def)
qed

subsection \<open>Strings\<close>

lemma hex_val_hex_char: "d < 16 \<Longrightarrow> hex_val (hex_char d) = Some d"
  by (auto simp: hex_val_def hex_char_def Let_def)

lemma hex_val_zero: "hex_val CHR ''0'' = Some 0"
  by (simp add: hex_val_def)

lemma decode_escape:
  "decode_uXXXX CHR ''0'' CHR ''0'' (hex_char (of_char c div 16)) (hex_char (of_char c mod 16))
     = Some (of_char c)"
proof -
  have "(of_char c :: nat) < 256" by simp
  then have "(of_char c :: nat) div 16 < 16" by arith
  then show ?thesis
    by (simp add: decode_uXXXX_def hex_val_zero hex_val_hex_char)
qed

lemma scanstring_escape_char:
  "scanstring (escape_char c @ r) = prepend c (scanstring r)"
proof -
  have lt: "(of_char c :: nat) < 256" by simp
  consider
      (short) "c = backslash \<or> c = quote \<or> c = CHR 0x08 \<or> c = CHR 0x0C \<or> c = CHR 0x0A
               \<or> c = CHR 0x0D \<or> c = CHR 0x09"
    | (plain) "c \<noteq> backslash" "c \<noteq> quote" "(32::nat) \<le> of_char c" "of_char c \<le> (126::nat)"
    | (uni) "c \<noteq> backslash" "c \<noteq> quote" "c \<noteq> CHR 0x08" "c \<noteq> CHR 0x0C" "c \<noteq> CHR 0x0A"
            "c \<noteq> CHR 0x0D" "c \<noteq> CHR 0x09" "\<not> ((32::nat) \<le> of_char c \<and> of_char c \<le> (126::nat))"
    by blast
  then show ?thesis
  proof cases
    case short
    then show ?thesis
      by (auto simp: escape_char_def backslash_table_def)
  next
    case plain
    then have "escape_char c = [c]"
      by (auto simp: escape_char_def)
    with plain show ?thesis by simp
  next
    case uni
    then have "escape_char c = [backslash, CHR ''u'', CHR ''0'', CHR ''0'',
            hex_char (of_char c div 16), hex_char (of_char c mod 16)]"
      by (simp add: escape_char_def)
    then show ?thesis
      using decode_escape [of c] lt by simp
  qed
qed

lemma scanstring_escaped:
  "scanstring (concat (map escape_char s) @ quote # r) = Some (s, r)"
  by (induction s) (simp_all add: scanstring_escape_char prepend_def)

lemma scanstring_encode:
  "scanstring (tl (encode_basestring_ascii s) @ r) = Some (s, r)"
  using scanstring_escaped [of s r] by (simp add: encode_basestring_ascii_def)



lemma encode_head: "\<exists>cs. encode_basestring_ascii s = quote # cs"
  by (simp add: encode_basestring_ascii_def)

lemma dumps_head: "\<exists>c cs. dumps v = c # cs \<and> value_start c"
proof (cases v)
  case (JInt i)
  obtain c cs where "str_int i = c # cs" "c = CHR ''-'' \<or> is_digit c"
    using str_int_head [of i] by blast
  with JInt show ?thesis
    by (auto simp: value_start_def is_ws_def is_digit_def)
qed (auto simp: value_start_def is_ws_def encode_basestring_ascii_def)

lemma skip_ws_value: "value_start c \<Longrightarrow> skip_ws (c # cs) = c # cs"
  by (simp add: skip_ws_def value_start_def)

lemma skip_ws_dumps: "skip_ws (dumps v @ r) = dumps v @ r"
  using dumps_head [of v] by (auto simp: skip_ws_value)

lemma skip_ws_space: "skip_ws (CHR '' '' # r) = skip_ws r"
  by (simp add: skip_ws_def is_ws_def)

lemma scan_once_null: "scan_once (Suc n) (''null'' @ r) = Some (JNull, r)"
  by simp

lemma scan_once_true: "scan_once (Suc n) (''true'' @ r) = Some (JBool True, r)"
  by simp

lemma scan_once_false: "scan_once (Suc n) (''false'' @ r) = Some (JBool False, r)"
  by simp

lemma scan_once_str:
  "scan_once (Suc n) (encode_basestring_ascii s @ r) = Some (JStr s, r)"
  using scanstring_escaped [of s r] by (simp add: encode_basestring_ascii_def)

lemma scan_once_int:
  assumes "delim r"
  shows "scan_once (Suc n) (str_int i @ r) = Some (JInt i, r)"
proof -
  obtain c cs where cs: "str_int i = c # cs" and c: "c = CHR ''-'' \<or> is_digit c"
    using str_int_head [of i] by blast
  have m: "match_int (c # cs @ r) = Some (i, r)"
    using match_int_str_int [OF delim_not_digit [OF assms], of i] cs by simp
  have "c \<noteq> quote" "c \<noteq> CHR ''{''" "c \<noteq> CHR ''[''" "c \<noteq> CHR ''n''" "c \<noteq> CHR ''t''" "c \<noteq> CHR ''f''"
    using c by (auto simp: is_digit_def)
  then show ?thesis
    using m delim_not_float [OF assms] by (simp add: cs)
qed



lemma scan_once_array_empty: "scan_once (Suc n) (''[]'' @ r) = Some (JArr [], r)"
  by (simp add: skip_ws_def is_ws_def)

lemma scan_once_object_empty: "scan_once (Suc n) (''{}'' @ r) = Some (JObj [], r)"
  by (simp add: skip_ws_def is_ws_def)

lemma scan_once_array:
  assumes "skip_ws t = t" and "t \<noteq> []" and "hd t \<noteq> CHR '']''"
    and "JSONArray n t = Some (vs, r)"
  shows "scan_once (Suc n) (CHR ''['' # t) = Some (JArr vs, r)"
  using assms by (cases t) simp_all

lemma scan_once_object:
  assumes "JSONObject n t = Some (pairs, r)"
  shows "scan_once (Suc n) (CHR ''{'' # quote # t) = Some (JObj (py_dict pairs), r)"
  using assms by (simp add: skip_ws_def is_ws_def)

lemma JSONArray_last:
  assumes "scan_once n s = Some (v, CHR '']'' # r)"
  shows "JSONArray (Suc n) s = Some ([v], r)"
  using assms by (simp add: skip_ws_def is_ws_def)

lemma JSONArray_more:
  assumes "scan_once n s = Some (v, CHR '','' # CHR '' '' # t)" and "skip_ws t = t"
    and "JSONArray n t = Some (vs, r)"
  shows "JSONArray (Suc n) s = Some (v # vs, r)"
proof -
  have "skip_ws (CHR '','' # CHR '' '' # t) = CHR '','' # CHR '' '' # t"
    by (simp add: skip_ws_def is_ws_def)
  moreover have "skip_ws (CHR '' '' # t) = t"
    using assms(2) by (simp add: skip_ws_space)
  ultimately show ?thesis using assms(1,3) by simp
qed

lemma JSONObject_last:
  assumes "scanstring s = Some (k, CHR '':'' # CHR '' '' # t)" and "skip_ws t = t"
    and "scan_once n t = Some (v, CHR ''}'' # r)"
  shows "JSONObject (Suc n) s = Some ([(k, v)], r)"
proof -
  have "skip_ws (CHR '':'' # CHR '' '' # t) = CHR '':'' # CHR '' '' # t"
    by (simp add: skip_ws_def is_ws_def)
  moreover have "skip_ws (CHR '' '' # t) = t"
    using assms(2) by (simp add: skip_ws_space)
  moreover have "skip_ws (CHR ''}'' # r) = CHR ''}'' # r"
    by (simp add: skip_ws_def is_ws_def)
  ultimately show ?thesis using assms(1,3) by simp
qed

lemma JSONObject_more:
  assumes "scanstring s = Some (k, CHR '':'' # CHR '' '' # t)" and "skip_ws t = t"
    and "scan_once n t = Some (v, CHR '','' # CHR '' '' # quote # u)"
    and "JSONObject n u = Some (pairs, r)"
  shows "JSONObject (Suc n) s = Some ((k, v) # pairs, r)"
proof -
  have "skip_ws (CHR '':'' # CHR '' '' # t) = CHR '':'' # CHR '' '' # t"
    by (simp add: skip_ws_def is_ws_def)
  moreover have "skip_ws (CHR '' '' # t) = t"
    using assms(2) by (simp add: skip_ws_space)
  moreover have "skip_ws (CHR '','' # CHR '' '' # quote # u) = CHR '','' # CHR '' '' # quote # u"
    by (simp add: skip_ws_def is_ws_def)
  moreover have "skip_ws (CHR '' '' # quote # u) = quote # u"
    by (simp add: skip_ws_def is_ws_def)
  ultimately show ?thesis using assms(1,3,4) by simp
qed

lemma dumps_list_head:
  "xs \<noteq> [] \<Longrightarrow> \<exists>c cs. dumps_list xs = c # cs \<and> value_start c"
proof (cases xs)
  case (Cons x ys)
  then show ?thesis using dumps_head [of x] by (cases ys) auto
qed simp

lemma dumps_dict_head:
  "kvs \<noteq> [] \<Longrightarrow> \<exists>cs. dumps_dict kvs = quote # cs"
proof (cases kvs)
  case (Cons kv ys)
  then show ?thesis
    by (cases kv; cases ys) (auto simp: encode_basestring_ascii_def)
qed simp

lemma delim_simps:
  "delim (CHR '']'' # r)" "delim (CHR ''}'' # r)" "delim (CHR '','' # r)" "delim []"
  by (simp_all add: delim_def)




declare scan_once.simps [simp del] JSONArray.simps [simp del] JSONObject.simps [simp del]

lemma scan_dumps:
  "\<And>n r. length (dumps v) \<le> n \<Longrightarrow> delim r \<Longrightarrow> scan_once n (dumps v @ r) = Some (decoded v, r)"
  and "\<And>n r. xs \<noteq> [] \<Longrightarrow> length (dumps_list xs) < n \<Longrightarrow>
         JSONArray n (dumps_list xs @ CHR '']'' # r) = Some (decoded_list xs, r)"
  and "\<And>n r. kvs \<noteq> [] \<Longrightarrow> length (dumps_dict kvs) \<le> n \<Longrightarrow>
         JSONObject n (tl (dumps_dict kvs) @ CHR ''}'' # r) = Some (decoded_dict kvs, r)"
proof (induction v and xs and kvs rule: dumps_dumps_list_dumps_dict.induct)
  case 1
  then obtain m where "n = Suc m" by (cases n) auto
  then show ?case using scan_once_null [of m r] by simp
next
  case (2 b)
  then obtain m where "n = Suc m" by (cases n) (auto split: if_splits)
  then show ?case using scan_once_true [of m r] scan_once_false [of m r] by simp
next
  case (3 i)
  obtain c cs where "str_int i = c # cs" using str_int_head [of i] by blast
  with 3 obtain m where "n = Suc m" by (cases n) auto
  then show ?case using scan_once_int [OF \<open>delim r\<close>, of m i] by simp
next
  case (4 s)
  then obtain m where "n = Suc m" by (cases n) (auto simp: encode_basestring_ascii_def)
  then show ?case using scan_once_str [of m s r] by simp
next
  case (5 xs)
  from "5.prems" obtain m where n: "n = Suc m" by (cases n) auto
  show ?case
  proof (cases "xs = []")
    case True
    then show ?thesis using scan_once_array_empty [of m r] n by simp
  next
    case False
    obtain c cs where h: "dumps_list xs = c # cs" "value_start c"
      using dumps_list_head [OF False] by blast
    have len: "length (dumps_list xs) < m" using "5.prems" n by simp
    have arr: "JSONArray m (dumps_list xs @ CHR '']'' # r) = Some (decoded_list xs, r)"
      using "5.IH" [OF False len] .
    have "scan_once (Suc m) (CHR ''['' # (dumps_list xs @ CHR '']'' # r)) = Some (JArr (decoded_list xs), r)"
    proof (rule scan_once_array [OF _ _ _ arr])
      show "skip_ws (dumps_list xs @ CHR '']'' # r) = dumps_list xs @ CHR '']'' # r"
        using h by (simp add: skip_ws_value)
      show "dumps_list xs @ CHR '']'' # r \<noteq> []" by simp
      show "hd (dumps_list xs @ CHR '']'' # r) \<noteq> CHR '']''"
        using h by (simp add: value_start_def)
    qed
    then show ?thesis using n by simp
  qed
next
  case (6 kvs)
  from "6.prems" obtain m where n: "n = Suc m" by (cases n) auto
  show ?case
  proof (cases "kvs = []")
    case True
    then show ?thesis using scan_once_object_empty [of m r] n by (simp add: py_dict_def)
  next
    case False
    obtain cs where h: "dumps_dict kvs = quote # cs"
      using dumps_dict_head [OF False] by blast
    have len: "length (dumps_dict kvs) \<le> m" using "6.prems" n by simp
    have obj: "JSONObject m (tl (dumps_dict kvs) @ CHR ''}'' # r) = Some (decoded_dict kvs, r)"
      using "6.IH" [OF False len] .
    show ?thesis
      using scan_once_object [OF obj] n h by simp
  qed
next
  case 7
  then show ?case by simp
next
  case (8 x)
  from "8.prems" obtain m where n: "n = Suc m" by (cases n) auto
  have "scan_once m (dumps x @ CHR '']'' # r) = Some (decoded x, CHR '']'' # r)"
    using "8.IH" [of m "CHR '']'' # r"] "8.prems" n by (simp add: delim_simps)
  then show ?case using JSONArray_last n by simp
next
  case (9 x y ys)
  from "9.prems" obtain m where n: "n = Suc m" by (cases n) auto
  let ?t = "dumps_list (y # ys) @ CHR '']'' # r"
  have a: "scan_once m (dumps x @ CHR '','' # CHR '' '' # ?t) = Some (decoded x, CHR '','' # CHR '' '' # ?t)"
    using "9.IH"(1) [of m "CHR '','' # CHR '' '' # ?t"] "9.prems" n by (simp add: delim_simps)
  obtain c cs where h: "dumps_list (y # ys) = c # cs" "value_start c"
    using dumps_list_head [of "y # ys"] by blast
  have b: "skip_ws ?t = ?t" using h by (simp add: skip_ws_value)
  have c: "JSONArray m ?t = Some (decoded_list (y # ys), r)"
    using "9.IH"(2) [of m r] "9.prems" n by simp
  show ?case using JSONArray_more [OF a b c] n by simp
next
  case 10
  then show ?case by simp
next
  case (11 k v)
  from "11.prems" obtain m where n: "n = Suc m" by (cases n) (auto simp: encode_basestring_ascii_def)
  let ?t = "dumps v @ CHR ''}'' # r"
  have a: "scanstring (tl (encode_basestring_ascii k) @ CHR '':'' # CHR '' '' # ?t) = Some (k, CHR '':'' # CHR '' '' # ?t)"
    by (rule scanstring_encode)
  have b: "skip_ws ?t = ?t" by (rule skip_ws_dumps)
  have c: "scan_once m ?t = Some (decoded v, CHR ''}'' # r)"
    using "11.IH" [of m "CHR ''}'' # r"] "11.prems" n by (simp add: delim_simps)
  show ?case using JSONObject_last [OF a b c] n
    by (simp add: encode_basestring_ascii_def)
next
  case (12 k v kv kvs)
  from "12.prems" obtain m where n: "n = Suc m" by (cases n) (auto simp: encode_basestring_ascii_def)
  obtain cs where h: "dumps_dict (kv # kvs) = quote # cs"
    using dumps_dict_head [of "kv # kvs"] by blast
  let ?u = "cs @ CHR ''}'' # r"
  let ?t = "dumps v @ CHR '','' # CHR '' '' # quote # ?u"
  have a: "scanstring (tl (encode_basestring_ascii k) @ CHR '':'' # CHR '' '' # ?t) = Some (k, CHR '':'' # CHR '' '' # ?t)"
    by (rule scanstring_encode)
  have b: "skip_ws ?t = ?t" by (rule skip_ws_dumps)
  have c: "scan_once m ?t = Some (decoded v, CHR '','' # CHR '' '' # quote # ?u)"
    using "12.IH"(1) [of m "CHR '','' # CHR '' '' # quote # ?u"] "12.prems" n by (simp add: delim_simps)
  have d: "JSONObject m ?u = Some (decoded_dict (kv # kvs), r)"
    using "12.IH"(2) [of m r] "12.prems" n h by simp
  show ?case using JSONObject_more [OF a b c d] n h
    by (simp add: encode_basestring_ascii_def)
qed

theorem loads_dumps: "loads (dumps v) = Some (decoded v)"
proof -
  have "scan_once (2 * length (dumps v) + 2) (dumps v @ []) = Some (decoded v, [])"
    by (rule scan_dumps(1)) (simp_all add: delim_simps)
  moreover have "skip_ws (dumps v) = dumps v" using skip_ws_dumps [of v "[]"] by simp
  ultimately show ?thesis by (simp add: loads_def skip_ws_def)
qed

section \<open>The view functions\<close>


lemma dumps_nonempty: "dumps v \<noteq> []"
  using dumps_head [of v] by auto

lemma dict_set_fresh: "k \<notin> fst ` set d \<Longrightarrow> dict_set d k v = d @ [(k, v)]"
  by (induction d) auto

lemma foldl_dict_set_distinct:
  "distinct (map fst (d @ ps)) \<Longrightarrow> foldl (\<lambda>d (k, v). dict_set d k v) d ps = d @ ps"
proof (induction ps arbitrary: d)
  case Nil
  then show ?case by simp
next
  case (Cons p ps)
  obtain k v where p: "p = (k, v)" by (cases p)
  have fresh: "k \<notin> fst ` set d" using Cons.prems p by auto
  have "distinct (map fst ((d @ [(k, v)]) @ ps))" using Cons.prems p by simp
  then have "foldl (\<lambda>d (k, v). dict_set d k v) (d @ [(k, v)]) ps = (d @ [(k, v)]) @ ps"
    by (rule Cons.IH)
  then show ?case using p fresh by (simp add: dict_set_fresh)
qed

lemma py_dict_distinct: "distinct (map fst ps) \<Longrightarrow> py_dict ps = ps"
  using foldl_dict_set_distinct [of "[]" ps] by (simp add: py_dict_def)

lemma decoded_distinct_keys:
  "distinct_keys v \<Longrightarrow> decoded v = v"
  and "distinct_keys_list xs \<Longrightarrow> decoded_list xs = xs"
  and "distinct_keys_dict kvs \<Longrightarrow> decoded_dict kvs = kvs"
  by (induction v and xs and kvs rule: decoded_decoded_list_decoded_dict.induct)
     (simp_all add: py_dict_distinct)

lemma long_dumps:
  "long \<lparr>drink_id = i, title = t, recipe = dumps v\<rparr> =
     Inr (JObj [(''id'', JInt (int i)), (''title'', json_of_title t), (''recipe'', decoded v)])"
  by (simp add: long_def loads_dumps)

lemma first_by_title: "filter_by_title_first s t \<noteq> None \<longleftrightarrow> (\<exists>d\<in>set (rows s). title d = t)"
  by (auto simp: filter_by_title_first_def find_None_iff)

lemma filter_unique:
  "distinct (map f xs) \<Longrightarrow> x \<in> set xs \<Longrightarrow> filter (\<lambda>y. f y = f x) xs = [x]"
proof (induction xs)
  case Nil
  then show ?case by simp
next
  case (Cons a xs)
  show ?case
  proof (cases "a = x")
    case True
    have "\<forall>y\<in>set xs. f y \<noteq> f x" using Cons.prems True by (auto simp: image_iff)
    then have "filter (\<lambda>y. f y = f x) xs = []" by (simp add: filter_empty_conv)
    with True show ?thesis by simp
  next
    case False
    then have "x \<in> set xs" using Cons.prems by simp
    then have "f a \<noteq> f x" using Cons.prems by auto
    with Cons \<open>x \<in> set xs\<close> show ?thesis by simp
  qed
qed

lemma one_or_none_absent:
  "\<forall>d\<in>set (rows s). drink_id d \<noteq> i \<Longrightarrow> filter_id_one_or_none s i = Inr None"
  by (simp add: filter_id_one_or_none_def filter_empty_conv)

lemma one_or_none_present:
  assumes "distinct (map drink_id (rows s))" and "d \<in> set (rows s)" and "drink_id d = i"
  shows "filter_id_one_or_none s i = Inr (Some d)"
  using filter_unique [OF assms(1,2)] assms(3) by (simp add: filter_id_one_or_none_def)

subsection \<open>Creating a drink\<close>

lemma create_drinks_422:
  "get_title body = Some [] \<Longrightarrow> create_drinks payload body s = (s, Inl (HTTPException 422))"
  by (simp add: create_drinks_def)

lemma create_drinks_400:
  assumes "get_title body \<noteq> Some []" and "\<exists>d\<in>set (rows s). title d = get_title body"
  shows "create_drinks payload body s = (s, Inl (HTTPException 400))"
  using assms first_by_title [of s "get_title body"]
  by (simp add: create_drinks_def dumps_nonempty)

lemma create_drinks_200:
  assumes "get_title body \<noteq> Some []" and "\<forall>d\<in>set (rows s). title d \<noteq> get_title body"
  shows "create_drinks payload body s =
     (s\<lparr>rows := rows s @ [\<lparr>drink_id = next_id s, title = get_title body,
                              recipe = dumps (py_value (get_recipe body))\<rparr>],
        next_id := Suc (next_id s)\<rparr>,
      Inr (jsonify [(''success'', JBool True),
                    (''drinks'', JArr [JObj [(''id'', JInt (int (next_id s))),
                                             (''title'', json_of_title (get_title body)),
                                             (''recipe'', decoded (py_value (get_recipe body)))]])]))"
proof -
  have "filter_by_title_first s (get_title body) = None"
    using assms(2) first_by_title [of s "get_title body"] by auto
  then show ?thesis
    using assms(1) by (simp add: create_drinks_def dumps_nonempty insert_drink_def Let_def long_dumps)
qed

subsection \<open>Updating and deleting a drink\<close>

lemma patch_drinks_404:
  "\<forall>d\<in>set (rows s). drink_id d \<noteq> i \<Longrightarrow> patch_drinks payload i body s = (s, Inl (HTTPException 404))"
  by (simp add: patch_drinks_def one_or_none_absent)

lemma delete_drinks_404:
  "\<forall>d\<in>set (rows s). drink_id d \<noteq> i \<Longrightarrow> delete_drinks payload i s = (s, Inl (HTTPException 404))"
  by (simp add: delete_drinks_def one_or_none_absent)

lemma patch_drinks_200:
  assumes "distinct (map drink_id (rows s))" and "d \<in> set (rows s)" and "drink_id d = i"
  shows "patch_drinks payload i body s =
     (s\<lparr>rows := map (\<lambda>x. if drink_id x = i
                           then \<lparr>drink_id = i,
                                 title = (if get_title body = Some [] then title d else get_title body),
                                 recipe = dumps (py_value (get_recipe body))\<rparr>
                           else x) (rows s)\<rparr>,
      Inr (jsonify [(''success'', JBool True),
                    (''drinks'', JArr [JObj [(''id'', JInt (int i)),
                       (''title'', json_of_title (if get_title body = Some [] then title d else get_title body)),
                       (''recipe'', decoded (py_value (get_recipe body)))]])]))"
proof -
  obtain t r where d: "d = \<lparr>drink_id = i, title = t, recipe = r\<rparr>"
    using assms(3) by (cases d) auto
  have one: "filter_id_one_or_none s i = Inr (Some \<lparr>drink_id = i, title = t, recipe = r\<rparr>)"
    using one_or_none_present [OF assms] d by simp
  show ?thesis
    by (simp add: patch_drinks_def one Let_def update_drink_def long_dumps dumps_nonempty d)
qed

lemma delete_drinks_200:
  assumes "distinct (map drink_id (rows s))" and "d \<in> set (rows s)" and "drink_id d = i"
  shows "delete_drinks payload i s =
     (s\<lparr>rows := filter (\<lambda>x. drink_id x \<noteq> i) (rows s)\<rparr>,
      Inr (jsonify [(''success'', JBool True), (''deleted'', JInt (int i))]))"
  unfolding delete_drinks_def one_or_none_present [OF assms]
  using assms(3) by (simp add: delete_drink_def)


lemma long_recipe_dumps:
  "recipe d = dumps v \<Longrightarrow>
     long d = Inr (JObj [(''id'', JInt (int (drink_id d))), (''title'', json_of_title (title d)),
                         (''recipe'', decoded v)])"
  by (simp add: long_def loads_dumps)

lemma status_jsonify: "status (jsonify d) = 200"
  by (simp add: jsonify_def)

lemma create_drinks_raise: "create_drinks payload body s = (s', Inl e) \<Longrightarrow> s' = s"
  by (auto simp: create_drinks_def Let_def insert_drink_def long_dumps dumps_nonempty
           split: if_splits)

lemma create_drinks_status: "create_drinks payload body s = (s', Inr r) \<Longrightarrow> status r = 200"
  by (auto simp: create_drinks_def Let_def insert_drink_def long_dumps dumps_nonempty status_jsonify
           split: if_splits)

lemma patch_drinks_raise: "patch_drinks payload i body s = (s', Inl e) \<Longrightarrow> s' = s"
  by (auto simp: patch_drinks_def Let_def long_recipe_dumps dumps_nonempty
           split: sum.splits option.splits)

lemma patch_drinks_status: "patch_drinks payload i body s = (s', Inr r) \<Longrightarrow> status r = 200"
  by (auto simp: patch_drinks_def Let_def long_recipe_dumps dumps_nonempty status_jsonify
           split: sum.splits option.splits)

lemma delete_drinks_raise: "delete_drinks payload i s = (s', Inl e) \<Longrightarrow> s' = s"
  by (auto simp: delete_drinks_def split: sum.splits option.splits)

lemma delete_drinks_status: "delete_drinks payload i s = (s', Inr r) \<Longrightarrow> status r = 200"
  by (auto simp: delete_drinks_def status_jsonify split: sum.splits option.splits)

lemma get_drinks_status: "get_drinks s = Inr r \<Longrightarrow> status r = 200"
  by (auto simp: get_drinks_def status_jsonify split: sum.splits)

lemma get_drinks_detail_status: "get_drinks_detail payload s = Inr r \<Longrightarrow> status r = 200"
  by (auto simp: get_drinks_detail_def status_jsonify split: sum.splits)

lemma dispatch_request_raise: "dispatch_request authz s req = (s', Inl e) \<Longrightarrow> s' = s"
  by (cases req)
     (auto simp: dispatch_request_def requires_auth_def
           dest: create_drinks_raise patch_drinks_raise delete_drinks_raise
           split: sum.splits)

lemma dispatch_request_status: "dispatch_request authz s req = (s', Inr r) \<Longrightarrow> status r = 200"
  by (cases req)
     (auto simp: dispatch_request_def requires_auth_def
           dest: create_drinks_status patch_drinks_status delete_drinks_status
                 get_drinks_status get_drinks_detail_status
           split: sum.splits)


lemma full_dispatch_cases:
  assumes "full_dispatch_request authz s req = (s', printed, Inr r)"
  shows "(dispatch_request authz s req = (s', Inr r) \<and> printed = []) \<or>
         (\<exists>e. dispatch_request authz s req = (s', Inl e) \<and> errorhandler e = Some (printed, r))"
  using assms
  by (cases "dispatch_request authz s req")
     (auto simp: full_dispatch_request_def handle_user_exception_def
           split: sum.splits option.splits)


lemma handle_422:
  "handle_user_exception (s, Inl (HTTPException 422)) =
     (s, [], Inr \<lparr>status = 422, data = JObj [(''success'', JBool False), (''error'', JInt 422),
                                              (''message'', JStr ''unprocessable'')]\<rparr>)"
  by (simp add: handle_user_exception_def errorhandler_def unprocessable_def jsonify_def
                with_status_def)

lemma handle_404:
  "handle_user_exception (s, Inl (HTTPException 404)) =
     (s, [], Inr \<lparr>status = 404, data = JObj [(''success'', JBool False), (''error'', JInt 404),
                                              (''message'', JStr ''resource not found'')]\<rparr>)"
  by (simp add: handle_user_exception_def errorhandler_def resource_not_found_def jsonify_def
                with_status_def)

lemma handle_400:
  "handle_user_exception (s, Inl (HTTPException 400)) =
     (s, [], Inr \<lparr>status = 400, data = JObj [(''success'', JBool False), (''error'', JInt 400),
                                              (''message'', JStr ''bad request'')]\<rparr>)"
  by (simp add: handle_user_exception_def errorhandler_def resource_not_found_400_def jsonify_def
                with_status_def)

lemma handle_auth:
  "handle_user_exception (s, Inl (AuthError e)) =
     (s, [code e], Inr \<lparr>status = 401, data = JObj [(''success'', JBool False), (''error'', JInt 401),
                                                    (''message'', JStr (description e))]\<rparr>)"
  by (simp add: handle_user_exception_def errorhandler_def authorization_errors_def jsonify_def
                with_status_def)

lemma handle_ok:
  "handle_user_exception (s, Inr (jsonify d)) = (s, [], Inr \<lparr>status = 200, data = JObj d\<rparr>)"
  by (simp add: handle_user_exception_def jsonify_def)

lemma full_dispatch_post:
  "authz ''post:drinks'' = Inr payload \<Longrightarrow>
     full_dispatch_request authz s (POST_drinks body) =
       handle_user_exception (create_drinks payload body s)"
  by (simp add: full_dispatch_request_def dispatch_request_def requires_auth_def)

lemma full_dispatch_patch:
  "authz ''patch:drinks'' = Inr payload \<Longrightarrow>
     full_dispatch_request authz s (PATCH_drinks i body) =
       handle_user_exception (patch_drinks payload i body s)"
  by (simp add: full_dispatch_request_def dispatch_request_def requires_auth_def)

lemma full_dispatch_delete:
  "authz ''delete:drinks'' = Inr payload \<Longrightarrow>
     full_dispatch_request authz s (DELETE_drinks i) =
       handle_user_exception (delete_drinks payload i s)"
  by (simp add: full_dispatch_request_def dispatch_request_def requires_auth_def)

lemma full_dispatch_get:
  "full_dispatch_request authz s GET_drinks = handle_user_exception (s, get_drinks s)"
  by (simp add: full_dispatch_request_def dispatch_request_def)

subsection \<open>The invariant of the table\<close>






subsection \<open>The summary view\<close>

lemma short_entry_ingredient:
  assumes "is_ingredient r"
  shows "\<exists>kvs c p. r = JObj kvs \<and> map_of kvs ''color'' = Some c \<and> map_of kvs ''parts'' = Some p \<and>
           short_entry r = Some (JObj [(''color'', c), (''parts'', p)])"
  using assms by (cases r) (auto simp: is_ingredient_def short_entry_def)

lemma short_recipe_ingredients:
  "list_all is_ingredient rs \<Longrightarrow>
     \<exists>es. short_recipe rs = Some es \<and>
       list_all2 (\<lambda>r e. \<exists>kvs c p. r = JObj kvs \<and> map_of kvs ''color'' = Some c \<and>
                    map_of kvs ''parts'' = Some p \<and> e = JObj [(''color'', c), (''parts'', p)]) rs es"
proof (induction rs)
  case Nil
  then show ?case by simp
next
  case (Cons r rs)
  then obtain es where es: "short_recipe rs = Some es"
    "list_all2 (\<lambda>r e. \<exists>kvs c p. r = JObj kvs \<and> map_of kvs ''color'' = Some c \<and>
                    map_of kvs ''parts'' = Some p \<and> e = JObj [(''color'', c), (''parts'', p)]) rs es"
    by auto
  from Cons.prems have "is_ingredient r" by simp
  then obtain kvs c p where r: "r = JObj kvs" "map_of kvs ''color'' = Some c"
    "map_of kvs ''parts'' = Some p" "short_entry r = Some (JObj [(''color'', c), (''parts'', p)])"
    using short_entry_ingredient by blast
  show ?case using es r by simp
qed

lemma short_recipe_ok:
  assumes "recipe_ok (recipe d)"
  shows "\<exists>rs es. loads (recipe d) = Some (JArr rs) \<and>
           short d = Inr (JObj [(''id'', JInt (int (drink_id d))),
                                (''title'', json_of_title (title d)),
                                (''recipe'', JArr es)]) \<and>
           list_all2 (\<lambda>r e. \<exists>kvs c p. r = JObj kvs \<and> map_of kvs ''color'' = Some c \<and>
                    map_of kvs ''parts'' = Some p \<and> e = JObj [(''color'', c), (''parts'', p)]) rs es"
proof -
  from assms obtain rs where rs: "loads (recipe d) = Some (JArr rs)" "list_all is_ingredient rs"
    by (auto simp: recipe_ok_def split: option.splits json.splits)
  from short_recipe_ingredients [OF rs(2)] obtain es where es: "short_recipe rs = Some es"
    "list_all2 (\<lambda>r e. \<exists>kvs c p. r = JObj kvs \<and> map_of kvs ''color'' = Some c \<and>
                    map_of kvs ''parts'' = Some p \<and> e = JObj [(''color'', c), (''parts'', p)]) rs es"
    by blast
  show ?thesis using rs(1) es by (simp add: short_def)
qed

lemma short_loop_Inr:
  "short_loop ds acc = Inr l' \<Longrightarrow> \<exists>l. l' = acc @ l \<and> list_all2 (\<lambda>d e. short d = Inr e) ds l"
proof (induction ds arbitrary: acc)
  case Nil
  then show ?case by simp
next
  case (Cons d ds)
  then obtain v where v: "short d = Inr v" "short_loop ds (acc @ [v]) = Inr l'"
    by (auto split: sum.splits)
  from Cons.IH [OF v(2)] obtain l where "l' = (acc @ [v]) @ l" "list_all2 (\<lambda>d e. short d = Inr e) ds l"
    by blast
  then have "l' = acc @ (v # l) \<and> list_all2 (\<lambda>d e. short d = Inr e) (d # ds) (v # l)"
    using v(1) by simp
  then show ?case by blast
qed

lemma short_loop_all:
  "list_all2 (\<lambda>d e. short d = Inr e) ds l \<Longrightarrow> short_loop ds acc = Inr (acc @ l)"
proof (induction ds arbitrary: acc l)
  case Nil
  then show ?case by simp
next
  case (Cons d ds)
  then obtain v l0 where l: "l = v # l0" "short d = Inr v" "list_all2 (\<lambda>d e. short d = Inr e) ds l0"
    by (cases l) auto
  show ?case using Cons.IH [OF l(3), of "acc @ [v]"] l by simp
qed

lemma short_id:
  "short d = Inr e \<Longrightarrow>
     \<exists>es. e = JObj [(''id'', JInt (int (drink_id d))), (''title'', json_of_title (title d)),
                     (''recipe'', JArr es)]"
  by (auto simp: short_def split: option.splits json.splits)

lemma list_all2_right:
  "list_all2 P xs ys \<Longrightarrow> y \<in> set ys \<Longrightarrow> \<exists>x\<in>set xs. P x y"
  by (induction rule: list_all2_induct) auto

lemma get_drinks_listed:
  assumes "get_drinks s = Inr r"
  shows "\<exists>l. r = \<lparr>status = 200, data = JObj [(''success'', JBool True), (''drinks'', JArr l)]\<rparr> \<and>
             list_all2 (\<lambda>d e. short d = Inr e) (rows s) l"
proof -
  from assms obtain l' where l': "short_loop (rows s) [] = Inr l'"
    "r = jsonify [(''success'', JBool True), (''drinks'', JArr l')]"
    by (auto simp: get_drinks_def query_all_def split: sum.splits)
  from short_loop_Inr [OF l'(1)] have "list_all2 (\<lambda>d e. short d = Inr e) (rows s) l'" by simp
  with l'(2) show ?thesis by (simp add: jsonify_def)
qed

lemma get_drinks_ok:
  assumes "list_all2 (\<lambda>d e. short d = Inr e) (rows s) l"
  shows "get_drinks s = Inr \<lparr>status = 200, data = JObj [(''success'', JBool True), (''drinks'', JArr l)]\<rparr>"
  using short_loop_all [OF assms, of "[]"]
  by (simp add: get_drinks_def query_all_def jsonify_def)

subsection \<open>Further facts used below\<close>

lemma errorhandler_status:
  "errorhandler e = Some (printed, r) \<Longrightarrow> status r \<in> {422, 404, 400, 401}"
  by (cases e)
     (auto simp: errorhandler_def unprocessable_def resource_not_found_def
                 resource_not_found_400_def authorization_errors_def jsonify_def with_status_def
           split: if_splits)

lemma full_dispatch_auth_error:
  "full_dispatch_request (\<lambda>p. Inl e) s (DELETE_drinks i) =
     (s, [code e], Inr \<lparr>status = 401, data = JObj [(''success'', JBool False), (''error'', JInt 401),
                                                    (''message'', JStr (description e))]\<rparr>)"
  by (simp add: full_dispatch_request_def dispatch_request_def requires_auth_def handle_auth)


lemma loads_null: "loads ''null'' = Some JNull"
  by code_simp

lemma loads_empty: "loads [] = None"
  by code_simp

lemma list_all2_choose:
  "\<forall>x\<in>set xs. \<exists>y. P x y \<Longrightarrow> \<exists>ys. list_all2 P xs ys"
proof (induction xs)
  case Nil
  then show ?case by simp
next
  case (Cons x xs)
  then obtain y ys where "P x y" "list_all2 P xs ys" by auto
  then have "list_all2 P (x # xs) (y # ys)" by simp
  then show ?case by blast
qed


lemma table_history_first: "s \<in> set (table_history s reqs)"
  by (cases reqs) auto











section \<open>The claims\<close>

text \<open>
  C1. A POST /drinks request, with the \<^verbatim>\<open>post:drinks\<close> permission granted, whose title
  equals the title of a drink already in the table is answered with status 400 and the
  body \<^verbatim>\<open>{success: false, error: 400, message: "bad request"}\<close>, and the table is
  unchanged: no row is inserted or overwritten. The table satisfies its invariant, under
  which no stored title is the empty string.
\<close>

theorem create_duplicate_title:
  assumes "authz ''post:drinks'' = Inr payload"
    and "store_inv s"
    and "d \<in> set (rows s)"
    and "title d = get_title body"
  shows "full_dispatch_request authz s (POST_drinks body) =
           (s, [], Inr \<lparr>status = 400,
                         data = JObj [(''success'', JBool False), (''error'', JInt 400),
                                      (''message'', JStr ''bad request'')]\<rparr>)"
proof -
  have "get_title body \<noteq> Some []"
    using assms(2,3,4) by (auto simp: store_inv_def)
  moreover have "\<exists>x\<in>set (rows s). title x = get_title body"
    using assms(3,4) by blast
  ultimately have "create_drinks payload body s = (s, Inl (HTTPException 400))"
    by (rule create_drinks_400)
  then show ?thesis
    using full_dispatch_post [of authz payload s body] assms(1) by (simp add: handle_400)
qed

theorem create_duplicate_title_witness:
  "full_dispatch_request (\<lambda>p. Inr JNull)
     \<lparr>rows = [\<lparr>drink_id = 1, title = Some ''Water'', recipe = ''[]''\<rparr>], next_id = 2\<rparr>
     (POST_drinks \<lparr>get_title = Some ''Water'', get_recipe = Some (JArr [])\<rparr>) =
   (\<lparr>rows = [\<lparr>drink_id = 1, title = Some ''Water'', recipe = ''[]''\<rparr>], next_id = 2\<rparr>, [],
    Inr \<lparr>status = 400,
         data = JObj [(''success'', JBool False), (''error'', JInt 400),
                      (''message'', JStr ''bad request'')]\<rparr>)"
  by (rule create_duplicate_title
        [where payload = JNull
           and d = "\<lparr>drink_id = 1, title = Some ''Water'', recipe = ''[]''\<rparr>"])
     (simp_all add: store_inv_def)

text \<open>
  C2. A PATCH /drinks/{id} that supplies an empty recipe is to leave the stored recipe
  unchanged, as a supplied empty title leaves the stored title unchanged. The code tests
  the serialized recipe against the empty string, which no serialization is, so the
  test never holds: with the empty string as title and as recipe, the title stays and
  the stored recipe \<^verbatim>\<open>[]\<close> is overwritten by the two quote characters that the empty
  string serializes to; with the empty list as recipe, a stored \<^verbatim>\<open>null\<close> is overwritten
  by \<^verbatim>\<open>[]\<close>.
\<close>

theorem patch_empty_recipe_overwrites:
  "full_dispatch_request (\<lambda>p. Inr JNull)
     \<lparr>rows = [\<lparr>drink_id = 1, title = Some ''Water'', recipe = ''[]''\<rparr>], next_id = 2\<rparr>
     (PATCH_drinks 1 \<lparr>get_title = Some [], get_recipe = Some (JStr [])\<rparr>) =
   (\<lparr>rows = [\<lparr>drink_id = 1, title = Some ''Water'', recipe = [quote, quote]\<rparr>], next_id = 2\<rparr>,
    [],
    Inr \<lparr>status = 200,
         data = JObj [(''success'', JBool True),
                      (''drinks'', JArr [JObj [(''id'', JInt 1), (''title'', JStr ''Water''),
                                               (''recipe'', JStr [])]])]\<rparr>) \<and>
   full_dispatch_request (\<lambda>p. Inr JNull)
     \<lparr>rows = [\<lparr>drink_id = 1, title = Some ''Water'', recipe = ''null''\<rparr>], next_id = 2\<rparr>
     (PATCH_drinks 1 \<lparr>get_title = Some [], get_recipe = Some (JArr [])\<rparr>) =
   (\<lparr>rows = [\<lparr>drink_id = 1, title = Some ''Water'', recipe = ''[]''\<rparr>], next_id = 2\<rparr>,
    [],
    Inr \<lparr>status = 200,
         data = JObj [(''success'', JBool True),
                      (''drinks'', JArr [JObj [(''id'', JInt 1), (''title'', JStr ''Water''),
                                               (''recipe'', JArr [])]])]\<rparr>)"
proof -
  have a: "patch_drinks JNull 1 \<lparr>get_title = Some [], get_recipe = Some (JStr [])\<rparr>
       \<lparr>rows = [\<lparr>drink_id = 1, title = Some ''Water'', recipe = ''[]''\<rparr>], next_id = 2\<rparr> =
     (\<lparr>rows = [\<lparr>drink_id = 1, title = Some ''Water'', recipe = [quote, quote]\<rparr>], next_id = 2\<rparr>,
      Inr (jsonify [(''success'', JBool True),
                      (''drinks'', JArr [JObj [(''id'', JInt 1), (''title'', JStr ''Water''),
                                               (''recipe'', JStr [])]])]))"
    using patch_drinks_200
      [of "\<lparr>rows = [\<lparr>drink_id = 1, title = Some ''Water'', recipe = ''[]''\<rparr>], next_id = 2\<rparr>"
          "\<lparr>drink_id = 1, title = Some ''Water'', recipe = ''[]''\<rparr>" 1 JNull
          "\<lparr>get_title = Some [], get_recipe = Some (JStr [])\<rparr>"]
    by (simp add: py_value_def json_of_title_def encode_basestring_ascii_def)
  have b: "patch_drinks JNull 1 \<lparr>get_title = Some [], get_recipe = Some (JArr [])\<rparr>
       \<lparr>rows = [\<lparr>drink_id = 1, title = Some ''Water'', recipe = ''null''\<rparr>], next_id = 2\<rparr> =
     (\<lparr>rows = [\<lparr>drink_id = 1, title = Some ''Water'', recipe = ''[]''\<rparr>], next_id = 2\<rparr>,
      Inr (jsonify [(''success'', JBool True),
                      (''drinks'', JArr [JObj [(''id'', JInt 1), (''title'', JStr ''Water''),
                                               (''recipe'', JArr [])]])]))"
    using patch_drinks_200
      [of "\<lparr>rows = [\<lparr>drink_id = 1, title = Some ''Water'', recipe = ''null''\<rparr>], next_id = 2\<rparr>"
          "\<lparr>drink_id = 1, title = Some ''Water'', recipe = ''null''\<rparr>" 1 JNull
          "\<lparr>get_title = Some [], get_recipe = Some (JArr [])\<rparr>"]
    by (simp add: py_value_def json_of_title_def)
  show ?thesis
    using a b full_dispatch_patch [of "\<lambda>p. Inr JNull" JNull]
    by (simp add: handle_ok)
qed

text \<open>
  C3, as the code has it. A POST /drinks request whose title is the empty string is
  rejected with status 422 and the body
  \<^verbatim>\<open>{success: false, error: 422, message: "unprocessable"}\<close>, and no row is inserted. This
  is what the view function does whenever it runs, and so what the route answers once
  the authorizer has granted the permission.
\<close>

theorem create_empty_title:
  assumes "get_title body = Some []"
  shows "handle_user_exception (create_drinks payload body s) =
           (s, [], Inr \<lparr>status = 422,
                         data = JObj [(''success'', JBool False), (''error'', JInt 422),
                                      (''message'', JStr ''unprocessable'')]\<rparr>) \<and>
         (authz ''post:drinks'' = Inr payload \<longrightarrow>
            full_dispatch_request authz s (POST_drinks body) =
              (s, [], Inr \<lparr>status = 422,
                            data = JObj [(''success'', JBool False), (''error'', JInt 422),
                                         (''message'', JStr ''unprocessable'')]\<rparr>))"
  using assms full_dispatch_post [of authz payload s body]
  by (simp add: create_drinks_422 handle_422)

theorem create_empty_title_witness:
  "full_dispatch_request (\<lambda>p. Inr JNull) \<lparr>rows = [], next_id = 1\<rparr>
     (POST_drinks \<lparr>get_title = Some [],
                   get_recipe = Some (JArr [JObj [(''name'', JStr ''water''),
                                                  (''color'', JStr ''blue''),
                                                  (''parts'', JInt 1)]])\<rparr>) =
   (\<lparr>rows = [], next_id = 1\<rparr>, [],
    Inr \<lparr>status = 422,
         data = JObj [(''success'', JBool False), (''error'', JInt 422),
                      (''message'', JStr ''unprocessable'')]\<rparr>)"
  using create_empty_title
    [of "\<lparr>get_title = Some [],
          get_recipe = Some (JArr [JObj [(''name'', JStr ''water''), (''color'', JStr ''blue''),
                                         (''parts'', JInt 1)]])\<rparr>"
        JNull "\<lparr>rows = [], next_id = 1\<rparr>" "\<lambda>p. Inr JNull"]
  by simp

theorem create_validation_counterexample:
  "full_dispatch_request (\<lambda>p. Inr JNull) \<lparr>rows = [], next_id = 1\<rparr>
     (POST_drinks \<lparr>get_title = Some ''Water'', get_recipe = None\<rparr>) =
   (\<lparr>rows = [\<lparr>drink_id = 1, title = Some ''Water'', recipe = ''null''\<rparr>], next_id = 2\<rparr>, [],
    Inr \<lparr>status = 200,
         data = JObj [(''success'', JBool True),
                      (''drinks'', JArr [JObj [(''id'', JInt 1), (''title'', JStr ''Water''),
                                               (''recipe'', JNull)]])]\<rparr>) \<and>
   full_dispatch_request (\<lambda>p. Inr JNull) \<lparr>rows = [], next_id = 1\<rparr>
     (POST_drinks \<lparr>get_title = Some ''Water'', get_recipe = Some (JStr [])\<rparr>) =
   (\<lparr>rows = [\<lparr>drink_id = 1, title = Some ''Water'', recipe = [quote, quote]\<rparr>], next_id = 2\<rparr>,
    [],
    Inr \<lparr>status = 200,
         data = JObj [(''success'', JBool True),
                      (''drinks'', JArr [JObj [(''id'', JInt 1), (''title'', JStr ''Water''),
                                               (''recipe'', JStr [])]])]\<rparr>) \<and>
   full_dispatch_request (\<lambda>p. Inr JNull) \<lparr>rows = [], next_id = 1\<rparr>
     (POST_drinks \<lparr>get_title = None, get_recipe = Some (JArr [])\<rparr>) =
   (\<lparr>rows = [\<lparr>drink_id = 1, title = None, recipe = ''[]''\<rparr>], next_id = 2\<rparr>, [],
    Inr \<lparr>status = 200,
         data = JObj [(''success'', JBool True),
                      (''drinks'', JArr [JObj [(''id'', JInt 1), (''title'', JNull),
                                               (''recipe'', JArr [])]])]\<rparr>)"
proof -
  have a: "create_drinks JNull \<lparr>get_title = Some ''Water'', get_recipe = None\<rparr>
          \<lparr>rows = [], next_id = 1\<rparr> =
        (\<lparr>rows = [\<lparr>drink_id = 1, title = Some ''Water'', recipe = ''null''\<rparr>], next_id = 2\<rparr>,
         Inr (jsonify [(''success'', JBool True),
                      (''drinks'', JArr [JObj [(''id'', JInt 1), (''title'', JStr ''Water''),
                                               (''recipe'', JNull)]])]))"
    using create_drinks_200 [of "\<lparr>get_title = Some ''Water'', get_recipe = None\<rparr>"
                                "\<lparr>rows = [], next_id = 1\<rparr>" JNull]
    by (simp add: py_value_def json_of_title_def)
  have b: "create_drinks JNull \<lparr>get_title = Some ''Water'', get_recipe = Some (JStr [])\<rparr>
          \<lparr>rows = [], next_id = 1\<rparr> =
        (\<lparr>rows = [\<lparr>drink_id = 1, title = Some ''Water'', recipe = [quote, quote]\<rparr>], next_id = 2\<rparr>,
         Inr (jsonify [(''success'', JBool True),
                      (''drinks'', JArr [JObj [(''id'', JInt 1), (''title'', JStr ''Water''),
                                               (''recipe'', JStr [])]])]))"
    using create_drinks_200 [of "\<lparr>get_title = Some ''Water'', get_recipe = Some (JStr [])\<rparr>"
                                "\<lparr>rows = [], next_id = 1\<rparr>" JNull]
    by (simp add: py_value_def json_of_title_def encode_basestring_ascii_def)
  have c: "create_drinks JNull \<lparr>get_title = None, get_recipe = Some (JArr [])\<rparr>
          \<lparr>rows = [], next_id = 1\<rparr> =
        (\<lparr>rows = [\<lparr>drink_id = 1, title = None, recipe = ''[]''\<rparr>], next_id = 2\<rparr>,
         Inr (jsonify [(''success'', JBool True),
                      (''drinks'', JArr [JObj [(''id'', JInt 1), (''title'', JNull),
                                               (''recipe'', JArr [])]])]))"
    using create_drinks_200 [of "\<lparr>get_title = None, get_recipe = Some (JArr [])\<rparr>"
                                "\<lparr>rows = [], next_id = 1\<rparr>" JNull]
    by (simp add: py_value_def json_of_title_def)
  show ?thesis
    using a b c full_dispatch_post [of "\<lambda>p. Inr JNull" JNull]
    by (simp add: handle_ok)
qed



text \<open>
  C5. A PATCH /drinks/{id} and a DELETE /drinks/{id} whose id matches no drink in the
  table fail with status 404 and the body
  \<^verbatim>\<open>{success: false, error: 404, message: "resource not found"}\<close>, and the table is
  unchanged. This is what the two view functions do whenever they run, and so what the
  routes answer once the authorizer has granted the permission.
\<close>

theorem unknown_id_not_found:
  assumes "\<forall>d\<in>set (rows s). drink_id d \<noteq> i"
  shows "handle_user_exception (patch_drinks payload i body s) =
           (s, [], Inr \<lparr>status = 404,
                         data = JObj [(''success'', JBool False), (''error'', JInt 404),
                                      (''message'', JStr ''resource not found'')]\<rparr>) \<and>
         handle_user_exception (delete_drinks payload i s) =
           (s, [], Inr \<lparr>status = 404,
                         data = JObj [(''success'', JBool False), (''error'', JInt 404),
                                      (''message'', JStr ''resource not found'')]\<rparr>) \<and>
         (authz ''patch:drinks'' = Inr payload \<longrightarrow>
            full_dispatch_request authz s (PATCH_drinks i body) =
              (s, [], Inr \<lparr>status = 404,
                            data = JObj [(''success'', JBool False), (''error'', JInt 404),
                                         (''message'', JStr ''resource not found'')]\<rparr>)) \<and>
         (authz ''delete:drinks'' = Inr payload \<longrightarrow>
            full_dispatch_request authz s (DELETE_drinks i) =
              (s, [], Inr \<lparr>status = 404,
                            data = JObj [(''success'', JBool False), (''error'', JInt 404),
                                         (''message'', JStr ''resource not found'')]\<rparr>))"
  using assms full_dispatch_patch [of authz payload s i body]
    full_dispatch_delete [of authz payload s i]
  by (simp add: patch_drinks_404 delete_drinks_404 handle_404)

theorem unknown_id_not_found_witness:
  "full_dispatch_request (\<lambda>p. Inr JNull)
     \<lparr>rows = [\<lparr>drink_id = 1, title = Some ''Water'', recipe = ''[]''\<rparr>], next_id = 2\<rparr>
     (PATCH_drinks 7 \<lparr>get_title = Some ''Tea'', get_recipe = Some (JArr [])\<rparr>) =
   (\<lparr>rows = [\<lparr>drink_id = 1, title = Some ''Water'', recipe = ''[]''\<rparr>], next_id = 2\<rparr>, [],
    Inr \<lparr>status = 404,
         data = JObj [(''success'', JBool False), (''error'', JInt 404),
                      (''message'', JStr ''resource not found'')]\<rparr>) \<and>
   full_dispatch_request (\<lambda>p. Inr JNull)
     \<lparr>rows = [\<lparr>drink_id = 1, title = Some ''Water'', recipe = ''[]''\<rparr>], next_id = 2\<rparr>
     (DELETE_drinks 7) =
   (\<lparr>rows = [\<lparr>drink_id = 1, title = Some ''Water'', recipe = ''[]''\<rparr>], next_id = 2\<rparr>, [],
    Inr \<lparr>status = 404,
         data = JObj [(''success'', JBool False), (''error'', JInt 404),
                      (''message'', JStr ''resource not found'')]\<rparr>)"
  using unknown_id_not_found
    [of "\<lparr>rows = [\<lparr>drink_id = 1, title = Some ''Water'', recipe = ''[]''\<rparr>], next_id = 2\<rparr>"
        7 JNull "\<lparr>get_title = Some ''Tea'', get_recipe = Some (JArr [])\<rparr>" "\<lambda>p. Inr JNull"]
  by simp

text \<open>
  C6. A DELETE /drinks/{id} on the id of a drink in the table, with the
  \<^verbatim>\<open>delete:drinks\<close> permission granted, removes that row and no other, and answers with
  status 200 and the body \<^verbatim>\<open>{success: true, deleted: id}\<close>, which carries the id and
  not the row. No drink of the table that remains has the id, and whenever a GET /drinks
  on that table answers, no entry of its list has the id.
\<close>

theorem delete_existing_drink:
  assumes "authz ''delete:drinks'' = Inr payload"
    and "store_inv s"
    and "d \<in> set (rows s)" and "drink_id d = i"
  shows "full_dispatch_request authz s (DELETE_drinks i) =
           (s\<lparr>rows := filter (\<lambda>x. x \<noteq> d) (rows s)\<rparr>, [],
            Inr \<lparr>status = 200,
                 data = JObj [(''success'', JBool True), (''deleted'', JInt (int i))]\<rparr>) \<and>
         (\<forall>x\<in>set (filter (\<lambda>x. x \<noteq> d) (rows s)). drink_id x \<noteq> i) \<and>
         (\<forall>r. get_drinks (s\<lparr>rows := filter (\<lambda>x. x \<noteq> d) (rows s)\<rparr>) = Inr r \<longrightarrow>
            full_dispatch_request authz' (s\<lparr>rows := filter (\<lambda>x. x \<noteq> d) (rows s)\<rparr>) GET_drinks =
              (s\<lparr>rows := filter (\<lambda>x. x \<noteq> d) (rows s)\<rparr>, [], Inr r) \<and>
            (\<exists>l. r = \<lparr>status = 200,
                       data = JObj [(''success'', JBool True), (''drinks'', JArr l)]\<rparr> \<and>
                 (\<forall>e\<in>set l. \<exists>j t es. e = JObj [(''id'', JInt (int j)), (''title'', t),
                                                 (''recipe'', JArr es)] \<and> j \<noteq> i)))"
proof -
  let ?s' = "s\<lparr>rows := filter (\<lambda>x. x \<noteq> d) (rows s)\<rparr>"
  have dist: "distinct (map drink_id (rows s))" using assms(2) by (simp add: store_inv_def)
  have same: "\<And>x. x \<in> set (rows s) \<Longrightarrow> (drink_id x \<noteq> i) = (x \<noteq> d)"
    using dist assms(3,4) by (auto simp: distinct_map inj_on_def)
  have flt: "filter (\<lambda>x. drink_id x \<noteq> i) (rows s) = filter (\<lambda>x. x \<noteq> d) (rows s)"
    by (rule filter_cong) (simp_all add: same)
  have "delete_drinks payload i s =
     (s\<lparr>rows := filter (\<lambda>x. drink_id x \<noteq> i) (rows s)\<rparr>,
      Inr (jsonify [(''success'', JBool True), (''deleted'', JInt (int i))]))"
    using dist assms(3,4) by (rule delete_drinks_200)
  then have del: "full_dispatch_request authz s (DELETE_drinks i) =
           (?s', [], Inr \<lparr>status = 200,
                 data = JObj [(''success'', JBool True), (''deleted'', JInt (int i))]\<rparr>)"
    using full_dispatch_delete [of authz payload s i] assms(1) by (simp add: flt handle_ok)
  have gone: "\<forall>x\<in>set (filter (\<lambda>x. x \<noteq> d) (rows s)). drink_id x \<noteq> i"
    using same by auto
  have get: "\<forall>r. get_drinks ?s' = Inr r \<longrightarrow>
            full_dispatch_request authz' ?s' GET_drinks = (?s', [], Inr r) \<and>
            (\<exists>l. r = \<lparr>status = 200,
                       data = JObj [(''success'', JBool True), (''drinks'', JArr l)]\<rparr> \<and>
                 (\<forall>e\<in>set l. \<exists>j t es. e = JObj [(''id'', JInt (int j)), (''title'', t),
                                                 (''recipe'', JArr es)] \<and> j \<noteq> i))"
  proof (intro allI impI conjI)
    fix r
    assume r: "get_drinks ?s' = Inr r"
    then show "full_dispatch_request authz' ?s' GET_drinks = (?s', [], Inr r)"
      by (simp add: full_dispatch_get handle_user_exception_def)
    from get_drinks_listed [OF r] obtain l where
      l: "r = \<lparr>status = 200, data = JObj [(''success'', JBool True), (''drinks'', JArr l)]\<rparr>"
         "list_all2 (\<lambda>d e. short d = Inr e) (rows ?s') l"
      by blast
    have "\<forall>e\<in>set l. \<exists>j t es. e = JObj [(''id'', JInt (int j)), (''title'', t),
                                                 (''recipe'', JArr es)] \<and> j \<noteq> i"
    proof
      fix e
      assume "e \<in> set l"
      with list_all2_right [OF l(2)] obtain x where x: "x \<in> set (rows ?s')" "short x = Inr e"
        by blast
      from short_id [OF x(2)] obtain es where
        "e = JObj [(''id'', JInt (int (drink_id x))), (''title'', json_of_title (title x)),
                   (''recipe'', JArr es)]"
        by blast
      moreover have "drink_id x \<noteq> i" using x(1) gone by simp
      ultimately show "\<exists>j t es. e = JObj [(''id'', JInt (int j)), (''title'', t),
                                                 (''recipe'', JArr es)] \<and> j \<noteq> i"
        by blast
    qed
    with l(1) show "\<exists>l. r = \<lparr>status = 200,
                       data = JObj [(''success'', JBool True), (''drinks'', JArr l)]\<rparr> \<and>
                 (\<forall>e\<in>set l. \<exists>j t es. e = JObj [(''id'', JInt (int j)), (''title'', t),
                                                 (''recipe'', JArr es)] \<and> j \<noteq> i)"
      by blast
  qed
  from del gone get show ?thesis by blast
qed

theorem delete_existing_drink_witness:
  "full_dispatch_request (\<lambda>p. Inr JNull)
     \<lparr>rows = [\<lparr>drink_id = 1, title = Some ''Water'',
               recipe = dumps (JArr [JObj [(''name'', JStr ''water''), (''color'', JStr ''blue''),
                                           (''parts'', JInt 1)]])\<rparr>,
              \<lparr>drink_id = 2, title = Some ''Tea'',
               recipe = dumps (JArr [JObj [(''name'', JStr ''tea''), (''color'', JStr ''green''),
                                           (''parts'', JInt 2)]])\<rparr>],
      next_id = 3\<rparr>
     (DELETE_drinks 1) =
   (\<lparr>rows = [\<lparr>drink_id = 2, title = Some ''Tea'',
               recipe = dumps (JArr [JObj [(''name'', JStr ''tea''), (''color'', JStr ''green''),
                                           (''parts'', JInt 2)]])\<rparr>],
      next_id = 3\<rparr>,
    [],
    Inr \<lparr>status = 200, data = JObj [(''success'', JBool True), (''deleted'', JInt 1)]\<rparr>) \<and>
   full_dispatch_request (\<lambda>p. Inl \<lparr>code = ''unauthorized'', description = ''permission not found'',
                                    status_code = 403\<rparr>)
     \<lparr>rows = [\<lparr>drink_id = 2, title = Some ''Tea'',
               recipe = dumps (JArr [JObj [(''name'', JStr ''tea''), (''color'', JStr ''green''),
                                           (''parts'', JInt 2)]])\<rparr>],
      next_id = 3\<rparr>
     GET_drinks =
   (\<lparr>rows = [\<lparr>drink_id = 2, title = Some ''Tea'',
               recipe = dumps (JArr [JObj [(''name'', JStr ''tea''), (''color'', JStr ''green''),
                                           (''parts'', JInt 2)]])\<rparr>],
      next_id = 3\<rparr>,
    [],
    Inr \<lparr>status = 200,
         data = JObj [(''success'', JBool True),
                      (''drinks'',
                       JArr [JObj [(''id'', JInt 2), (''title'', JStr ''Tea''),
                                   (''recipe'', JArr [JObj [(''color'', JStr ''green''),
                                                            (''parts'', JInt 2)]])]])]\<rparr>)"
proof -
  let ?r1 = "JArr [JObj [(''name'', JStr ''water''), (''color'', JStr ''blue''), (''parts'', JInt 1)]]"
  let ?r2 = "JArr [JObj [(''name'', JStr ''tea''), (''color'', JStr ''green''), (''parts'', JInt 2)]]"
  let ?d1 = "\<lparr>drink_id = 1, title = Some ''Water'', recipe = dumps ?r1\<rparr>"
  let ?d2 = "\<lparr>drink_id = 2, title = Some ''Tea'', recipe = dumps ?r2\<rparr>"
  let ?s = "\<lparr>rows = [?d1, ?d2], next_id = 3\<rparr>"
  let ?s' = "\<lparr>rows = [?d2], next_id = 3\<rparr>"
  let ?r = "\<lparr>status = 200,
         data = JObj [(''success'', JBool True),
                      (''drinks'',
                       JArr [JObj [(''id'', JInt 2), (''title'', JStr ''Tea''),
                                   (''recipe'', JArr [JObj [(''color'', JStr ''green''),
                                                            (''parts'', JInt 2)]])]])]\<rparr>"
  have inv: "store_inv ?s" by (simp add: store_inv_def)
  have s': "?s\<lparr>rows := filter (\<lambda>x. x \<noteq> ?d1) (rows ?s)\<rparr> = ?s'"
    by (simp del: dumps.simps)
  have "short ?d2 = Inr (JObj [(''id'', JInt 2), (''title'', JStr ''Tea''),
                               (''recipe'', JArr [JObj [(''color'', JStr ''green''),
                                                        (''parts'', JInt 2)]])])"
    by (simp add: short_def loads_dumps py_dict_def short_entry_def json_of_title_def
             del: dumps.simps)
  then have get: "get_drinks ?s' = Inr ?r"
    by (simp add: get_drinks_def query_all_def jsonify_def del: dumps.simps)
  note w = delete_existing_drink
    [where authz = "\<lambda>p. Inr JNull" and payload = JNull and s = ?s and d = ?d1 and i = 1
       and authz' = "\<lambda>p. Inl \<lparr>code = ''unauthorized'', description = ''permission not found'',
                                status_code = 403\<rparr>",
     unfolded s']
  show ?thesis using w inv get by (simp del: dumps.simps)
qed

text \<open>
  C7, as the code has it. GET /drinks runs no authorization check: its outcome is the same
  for every authorizer. On a table in which every recipe blob is the text of a sequence
  of ingredient entries, each an object with a color and a parts quantity, it answers
  with status 200 and the body \<^verbatim>\<open>{success: true, drinks: l}\<close>, where \<open>l\<close> lists every drink
  of the table in storage order in summary view: id, title, and a recipe that holds, for
  every ingredient, its color and its parts and nothing else.
\<close>

theorem list_drinks_summary:
  assumes "\<forall>d\<in>set (rows s). recipe_ok (recipe d)"
  shows "full_dispatch_request authz s GET_drinks = full_dispatch_request authz' s GET_drinks \<and>
         (\<exists>l. full_dispatch_request authz s GET_drinks =
                 (s, [], Inr \<lparr>status = 200,
                               data = JObj [(''success'', JBool True), (''drinks'', JArr l)]\<rparr>) \<and>
              list_all2
                (\<lambda>d e. \<exists>rs es.
                   loads (recipe d) = Some (JArr rs) \<and>
                   e = JObj [(''id'', JInt (int (drink_id d))),
                             (''title'', json_of_title (title d)),
                             (''recipe'', JArr es)] \<and>
                   list_all2
                     (\<lambda>r c. \<exists>kvs col parts.
                        r = JObj kvs \<and> map_of kvs ''color'' = Some col \<and>
                        map_of kvs ''parts'' = Some parts \<and>
                        c = JObj [(''color'', col), (''parts'', parts)])
                     rs es)
                (rows s) l)"
proof -
  let ?Q = "\<lambda>d e. \<exists>rs es.
                   loads (recipe d) = Some (JArr rs) \<and>
                   e = JObj [(''id'', JInt (int (drink_id d))),
                             (''title'', json_of_title (title d)),
                             (''recipe'', JArr es)] \<and>
                   list_all2
                     (\<lambda>r c. \<exists>kvs col parts.
                        r = JObj kvs \<and> map_of kvs ''color'' = Some col \<and>
                        map_of kvs ''parts'' = Some parts \<and>
                        c = JObj [(''color'', col), (''parts'', parts)])
                     rs es"
  have "\<forall>d\<in>set (rows s). \<exists>e. short d = Inr e \<and> ?Q d e"
  proof
    fix d
    assume "d \<in> set (rows s)"
    with assms have "recipe_ok (recipe d)" by simp
    from short_recipe_ok [OF this] show "\<exists>e. short d = Inr e \<and> ?Q d e" by blast
  qed
  then obtain l where l: "list_all2 (\<lambda>d e. short d = Inr e \<and> ?Q d e) (rows s) l"
    using list_all2_choose [of "rows s" "\<lambda>d e. short d = Inr e \<and> ?Q d e"] by blast
  then have a: "list_all2 (\<lambda>d e. short d = Inr e) (rows s) l" and b: "list_all2 ?Q (rows s) l"
    by (auto elim: list_all2_mono)
  have "full_dispatch_request authz s GET_drinks =
          (s, [], Inr \<lparr>status = 200,
                        data = JObj [(''success'', JBool True), (''drinks'', JArr l)]\<rparr>)"
    using get_drinks_ok [OF a] by (simp add: full_dispatch_get handle_user_exception_def)
  moreover have "full_dispatch_request authz s GET_drinks = full_dispatch_request authz' s GET_drinks"
    by (simp add: full_dispatch_get)
  ultimately show ?thesis using b by blast
qed

theorem list_drinks_summary_witness:
  "full_dispatch_request
     (\<lambda>p. Inl \<lparr>code = ''unauthorized'', description = ''permission not found'', status_code = 403\<rparr>)
     \<lparr>rows = [\<lparr>drink_id = 1, title = Some ''Water'',
               recipe = dumps (JArr [JObj [(''name'', JStr ''water''), (''color'', JStr ''blue''),
                                           (''parts'', JInt 1)]])\<rparr>],
      next_id = 2\<rparr>
     GET_drinks =
   (\<lparr>rows = [\<lparr>drink_id = 1, title = Some ''Water'',
               recipe = dumps (JArr [JObj [(''name'', JStr ''water''), (''color'', JStr ''blue''),
                                           (''parts'', JInt 1)]])\<rparr>],
      next_id = 2\<rparr>,
    [],
    Inr \<lparr>status = 200,
         data = JObj [(''success'', JBool True),
                      (''drinks'',
                       JArr [JObj [(''id'', JInt 1), (''title'', JStr ''Water''),
                                   (''recipe'', JArr [JObj [(''color'', JStr ''blue''),
                                                            (''parts'', JInt 1)]])]])]\<rparr>)"
proof -
  let ?v = "JArr [JObj [(''name'', JStr ''water''), (''color'', JStr ''blue''), (''parts'', JInt 1)]]"
  let ?d = "\<lparr>drink_id = 1, title = Some ''Water'', recipe = dumps ?v\<rparr>"
  let ?s = "\<lparr>rows = [?d], next_id = 2\<rparr>"
  have ld: "loads (dumps ?v) = Some ?v"
    by (simp add: loads_dumps py_dict_def del: dumps.simps)
  have ok: "\<forall>d\<in>set (rows ?s). recipe_ok (recipe d)"
    by (simp add: recipe_ok_def ld is_ingredient_def del: dumps.simps)
  from list_drinks_summary [OF ok] obtain l where
    l: "full_dispatch_request
          (\<lambda>p. Inl \<lparr>code = ''unauthorized'', description = ''permission not found'', status_code = 403\<rparr>)
          ?s GET_drinks =
        (?s, [], Inr \<lparr>status = 200,
                       data = JObj [(''success'', JBool True), (''drinks'', JArr l)]\<rparr>)"
    and q: "list_all2
                (\<lambda>d e. \<exists>rs es.
                   loads (recipe d) = Some (JArr rs) \<and>
                   e = JObj [(''id'', JInt (int (drink_id d))),
                             (''title'', json_of_title (title d)),
                             (''recipe'', JArr es)] \<and>
                   list_all2
                     (\<lambda>r c. \<exists>kvs col parts.
                        r = JObj kvs \<and> map_of kvs ''color'' = Some col \<and>
                        map_of kvs ''parts'' = Some parts \<and>
                        c = JObj [(''color'', col), (''parts'', parts)])
                     rs es)
                (rows ?s) l"
    by blast
  from q have "l = [JObj [(''id'', JInt 1), (''title'', JStr ''Water''),
                          (''recipe'', JArr [JObj [(''color'', JStr ''blue''),
                                                   (''parts'', JInt 1)]])]]"
    by (auto simp: list_all2_Cons1 ld json_of_title_def simp del: dumps.simps)
  with l show ?thesis by (simp del: dumps.simps)
qed

theorem list_drinks_counterexample:
  "full_dispatch_request (\<lambda>p. Inr JNull) \<lparr>rows = [], next_id = 1\<rparr>
     (POST_drinks \<lparr>get_title = Some ''Water'', get_recipe = None\<rparr>) =
   (\<lparr>rows = [\<lparr>drink_id = 1, title = Some ''Water'', recipe = ''null''\<rparr>], next_id = 2\<rparr>, [],
    Inr \<lparr>status = 200,
         data = JObj [(''success'', JBool True),
                      (''drinks'', JArr [JObj [(''id'', JInt 1), (''title'', JStr ''Water''),
                                               (''recipe'', JNull)]])]\<rparr>) \<and>
   full_dispatch_request (\<lambda>p. Inr JNull)
     \<lparr>rows = [\<lparr>drink_id = 1, title = Some ''Water'', recipe = ''null''\<rparr>], next_id = 2\<rparr>
     GET_drinks =
   (\<lparr>rows = [\<lparr>drink_id = 1, title = Some ''Water'', recipe = ''null''\<rparr>], next_id = 2\<rparr>, [],
    Inl ServerFault) \<and>
   full_dispatch_request (\<lambda>p. Inr JNull)
     \<lparr>rows = [\<lparr>drink_id = 1, title = Some ''Water'', recipe = []\<rparr>], next_id = 2\<rparr>
     GET_drinks =
   (\<lparr>rows = [\<lparr>drink_id = 1, title = Some ''Water'', recipe = []\<rparr>], next_id = 2\<rparr>, [],
    Inl ServerFault)"
proof -
  have "create_drinks JNull \<lparr>get_title = Some ''Water'', get_recipe = None\<rparr>
          \<lparr>rows = [], next_id = 1\<rparr> =
        (\<lparr>rows = [\<lparr>drink_id = 1, title = Some ''Water'', recipe = ''null''\<rparr>], next_id = 2\<rparr>,
         Inr (jsonify [(''success'', JBool True),
                      (''drinks'', JArr [JObj [(''id'', JInt 1), (''title'', JStr ''Water''),
                                               (''recipe'', JNull)]])]))"
    using create_drinks_200 [of "\<lparr>get_title = Some ''Water'', get_recipe = None\<rparr>"
                                "\<lparr>rows = [], next_id = 1\<rparr>" JNull]
    by (simp add: py_value_def json_of_title_def)
  then have a: "full_dispatch_request (\<lambda>p. Inr JNull) \<lparr>rows = [], next_id = 1\<rparr>
     (POST_drinks \<lparr>get_title = Some ''Water'', get_recipe = None\<rparr>) =
   (\<lparr>rows = [\<lparr>drink_id = 1, title = Some ''Water'', recipe = ''null''\<rparr>], next_id = 2\<rparr>, [],
    Inr \<lparr>status = 200,
         data = JObj [(''success'', JBool True),
                      (''drinks'', JArr [JObj [(''id'', JInt 1), (''title'', JStr ''Water''),
                                               (''recipe'', JNull)]])]\<rparr>)"
    using full_dispatch_post [of "\<lambda>p. Inr JNull" JNull] by (simp add: handle_ok)
  have "short \<lparr>drink_id = 1, title = Some ''Water'', recipe = ''null''\<rparr> = Inl ServerFault"
    by (simp add: short_def loads_null)
  then have b: "full_dispatch_request (\<lambda>p. Inr JNull)
     \<lparr>rows = [\<lparr>drink_id = 1, title = Some ''Water'', recipe = ''null''\<rparr>], next_id = 2\<rparr>
     GET_drinks =
   (\<lparr>rows = [\<lparr>drink_id = 1, title = Some ''Water'', recipe = ''null''\<rparr>], next_id = 2\<rparr>, [],
    Inl ServerFault)"
    by (simp add: full_dispatch_get get_drinks_def query_all_def handle_user_exception_def
                  errorhandler_def)
  have "short \<lparr>drink_id = 1, title = Some ''Water'', recipe = []\<rparr> = Inl ServerFault"
    by (simp add: short_def loads_empty)
  then have c: "full_dispatch_request (\<lambda>p. Inr JNull)
     \<lparr>rows = [\<lparr>drink_id = 1, title = Some ''Water'', recipe = []\<rparr>], next_id = 2\<rparr>
     GET_drinks =
   (\<lparr>rows = [\<lparr>drink_id = 1, title = Some ''Water'', recipe = []\<rparr>], next_id = 2\<rparr>, [],
    Inl ServerFault)"
    by (simp add: full_dispatch_get get_drinks_def query_all_def handle_user_exception_def
                  errorhandler_def)
  from a b c show ?thesis by blast
qed




text \<open>
  C9. A POST /drinks request whose body has no \<^verbatim>\<open>recipe\<close> key, with a non-empty title
  that no drink has and the \<^verbatim>\<open>post:drinks\<close> permission granted, is not rejected: the
  absent recipe serializes to the non-empty text \<^verbatim>\<open>null\<close>, so the validation branch is
  not taken, and a drink whose stored recipe is \<^verbatim>\<open>null\<close> is inserted and returned with
  status 200.
\<close>

theorem create_without_recipe:
  assumes "authz ''post:drinks'' = Inr payload"
    and "get_title body = Some t" and "t \<noteq> []"
    and "get_recipe body = None"
    and "\<forall>x\<in>set (rows s). title x \<noteq> Some t"
  shows "dumps (py_value (get_recipe body)) = ''null'' \<and>
         full_dispatch_request authz s (POST_drinks body) =
           (s\<lparr>rows := rows s @ [\<lparr>drink_id = next_id s, title = Some t, recipe = ''null''\<rparr>],
              next_id := Suc (next_id s)\<rparr>,
            [],
            Inr \<lparr>status = 200,
                 data = JObj [(''success'', JBool True),
                              (''drinks'', JArr [JObj [(''id'', JInt (int (next_id s))),
                                                       (''title'', JStr t),
                                                       (''recipe'', JNull)]])]\<rparr>)"
proof -
  have null: "dumps (py_value (get_recipe body)) = ''null''"
    using assms(4) by (simp add: py_value_def)
  have "get_title body \<noteq> Some []" using assms(2,3) by simp
  moreover have "\<forall>d\<in>set (rows s). title d \<noteq> get_title body" using assms(2,5) by simp
  ultimately have "create_drinks payload body s =
     (s\<lparr>rows := rows s @ [\<lparr>drink_id = next_id s, title = get_title body,
                              recipe = dumps (py_value (get_recipe body))\<rparr>],
        next_id := Suc (next_id s)\<rparr>,
      Inr (jsonify [(''success'', JBool True),
                    (''drinks'', JArr [JObj [(''id'', JInt (int (next_id s))),
                                             (''title'', json_of_title (get_title body)),
                                             (''recipe'', decoded (py_value (get_recipe body)))]])]))"
    by (rule create_drinks_200)
  then have "handle_user_exception (create_drinks payload body s) =
           (s\<lparr>rows := rows s @ [\<lparr>drink_id = next_id s, title = Some t, recipe = ''null''\<rparr>],
              next_id := Suc (next_id s)\<rparr>,
            [],
            Inr \<lparr>status = 200,
                 data = JObj [(''success'', JBool True),
                              (''drinks'', JArr [JObj [(''id'', JInt (int (next_id s))),
                                                       (''title'', JStr t),
                                                       (''recipe'', JNull)]])]\<rparr>)"
    using assms(2,4) by (simp add: handle_ok py_value_def json_of_title_def)
  then show ?thesis
    using null full_dispatch_post [of authz payload s body] assms(1) by simp
qed

theorem create_without_recipe_witness:
  "full_dispatch_request (\<lambda>p. Inr JNull) \<lparr>rows = [], next_id = 1\<rparr>
     (POST_drinks \<lparr>get_title = Some ''Water'', get_recipe = None\<rparr>) =
   (\<lparr>rows = [\<lparr>drink_id = 1, title = Some ''Water'', recipe = ''null''\<rparr>], next_id = 2\<rparr>, [],
    Inr \<lparr>status = 200,
         data = JObj [(''success'', JBool True),
                      (''drinks'', JArr [JObj [(''id'', JInt 1), (''title'', JStr ''Water''),
                                               (''recipe'', JNull)]])]\<rparr>)"
  using create_without_recipe
    [of "\<lambda>p. Inr JNull" JNull "\<lparr>get_title = Some ''Water'', get_recipe = None\<rparr>" "''Water''"
        "\<lparr>rows = [], next_id = 1\<rparr>"]
  by simp

text \<open>
  C10. A POST, PATCH or DELETE request that fails, with 422, 400, 404 or the 401 of an
  authorization failure, leaves the table as it was: the failure is raised before any
  insert, update or delete. Every response other than a 200 is one of these four
  failures.
\<close>

theorem failed_request_atomic:
  assumes "full_dispatch_request authz s req = (s', printed, Inr r)"
    and "status r \<noteq> 200"
  shows "s' = s \<and> status r \<in> {422, 400, 404, 401}"
proof -
  from full_dispatch_cases [OF assms(1)] assms(2)
  obtain e where e: "dispatch_request authz s req = (s', Inl e)" "errorhandler e = Some (printed, r)"
    by (auto dest: dispatch_request_status)
  from dispatch_request_raise [OF e(1)] errorhandler_status [OF e(2)]
  show ?thesis by auto
qed

theorem failed_request_atomic_witness:
  "fst (full_dispatch_request (\<lambda>p. Inr JNull)
         \<lparr>rows = [\<lparr>drink_id = 1, title = Some ''Water'', recipe = ''[]''\<rparr>], next_id = 2\<rparr>
         (POST_drinks \<lparr>get_title = Some ''Water'', get_recipe = Some (JArr [])\<rparr>)) =
     \<lparr>rows = [\<lparr>drink_id = 1, title = Some ''Water'', recipe = ''[]''\<rparr>], next_id = 2\<rparr> \<and>
   fst (full_dispatch_request (\<lambda>p. Inl \<lparr>code = ''unauthorized'', description = ''permission not found'', status_code = 403\<rparr>)
         \<lparr>rows = [\<lparr>drink_id = 1, title = Some ''Water'', recipe = ''[]''\<rparr>], next_id = 2\<rparr>
         (DELETE_drinks 1)) =
     \<lparr>rows = [\<lparr>drink_id = 1, title = Some ''Water'', recipe = ''[]''\<rparr>], next_id = 2\<rparr>"
proof -
  let ?s = "\<lparr>rows = [\<lparr>drink_id = 1, title = Some ''Water'', recipe = ''[]''\<rparr>], next_id = 2\<rparr>"
  let ?e = "\<lparr>code = ''unauthorized'', description = ''permission not found'', status_code = 403\<rparr>"
  let ?post = "full_dispatch_request (\<lambda>p. Inr JNull) ?s
                 (POST_drinks \<lparr>get_title = Some ''Water'', get_recipe = Some (JArr [])\<rparr>)"
  let ?del = "full_dispatch_request (\<lambda>p. Inl ?e) ?s (DELETE_drinks 1)"
  have "create_drinks JNull \<lparr>get_title = Some ''Water'', get_recipe = Some (JArr [])\<rparr> ?s =
          (?s, Inl (HTTPException 400))"
    by (rule create_drinks_400) simp_all
  then have post: "?post = (fst ?post, [], Inr \<lparr>status = 400,
                         data = JObj [(''success'', JBool False), (''error'', JInt 400),
                                      (''message'', JStr ''bad request'')]\<rparr>)"
    using full_dispatch_post [of "\<lambda>p. Inr JNull" JNull] by (simp add: handle_400)
  have del: "?del = (fst ?del, [''unauthorized''], Inr \<lparr>status = 401,
                         data = JObj [(''success'', JBool False), (''error'', JInt 401),
                                      (''message'', JStr ''permission not found'')]\<rparr>)"
    by (simp add: full_dispatch_auth_error)
  show ?thesis
    using failed_request_atomic [OF post] failed_request_atomic [OF del] by simp
qed

end
